theory Spec2Isabelle
  imports Main "HOL-Library.Word" "HOL-Library.Sublist"
begin

text \<open>
  The client shares one text document, and optionally embedded files, with the other
  devices of a room over a socket. The repository holds two variants of the component
  \<open>App\<close>. The attachment variant keeps attachments, defers the push of an edit to an
  explicit save and exchanges the document as JSON. The minimal variant (\<open>src/App.jsx\<close>)
  pushes every edit at once and exchanges the bare text. This theory models the session
  and synchronisation logic of both: the normalisation of session codes, the resolution of
  the room, the connection effect, the handlers of edits, files, save and clear, and the
  handler of inbound snapshots, together with the \<open>JSON.stringify\<close> and \<open>JSON.parse\<close> they
  call.
\<close>

section \<open>JavaScript strings\<close>

text \<open>
  A JavaScript string is a sequence of 16-bit code units. ASCII literals of the source are
  written through \<open>js\<close>.
\<close>

type_synonym jschar = "16 word"
type_synonym jsstring = "jschar list"

definition js :: "string \<Rightarrow> jsstring" where
  "js s = map of_char s"

definition is_high_surrogate :: "jschar \<Rightarrow> bool" where
  "is_high_surrogate c \<longleftrightarrow> 0xD800 \<le> c \<and> c \<le> 0xDBFF"

definition is_low_surrogate :: "jschar \<Rightarrow> bool" where
  "is_low_surrogate c \<longleftrightarrow> 0xDC00 \<le> c \<and> c \<le> 0xDFFF"

text \<open>
  \<open>String.prototype.toUpperCase\<close> maps every code point of the string to its Unicode
  uppercase mapping. On ASCII this is \<open>a..z \<mapsto> A..Z\<close>. The mapping of the code points
  beyond ASCII is the Unicode table of the host, which is not part of the repository: it is
  the parameter \<open>U\<close>, from the code units of one code point (one unit, or a surrogate pair)
  to the code units of its uppercase mapping.
\<close>

type_synonym case_table = "jsstring \<Rightarrow> jsstring"

definition ascii_upper :: "jschar \<Rightarrow> jschar" where
  "ascii_upper c = (if 0x61 \<le> c \<and> c \<le> 0x7A then c - 0x20 else c)"

fun toUpperCase :: "case_table \<Rightarrow> jsstring \<Rightarrow> jsstring" where
  "toUpperCase U [] = []"
| "toUpperCase U [c] = (if c < 0x80 then [ascii_upper c] else U [c])"
| "toUpperCase U (c # d # ds) =
     (if c < 0x80 then ascii_upper c # toUpperCase U (d # ds)
      else if is_high_surrogate c \<and> is_low_surrogate d then U [c, d] @ toUpperCase U ds
      else U [c] @ toUpperCase U (d # ds))"

text \<open>\<open>.replace(/[^A-Z0-9]/g, '')\<close>: the regular expression has no \<open>u\<close> flag, so it
  works on code units and deletes every unit outside \<open>A-Z\<close> and \<open>0-9\<close>.\<close>

definition is_AZ09 :: "jschar \<Rightarrow> bool" where
  "is_AZ09 c \<longleftrightarrow> (0x41 \<le> c \<and> c \<le> 0x5A) \<or> (0x30 \<le> c \<and> c \<le> 0x39)"

definition replace_non_AZ09 :: "jsstring \<Rightarrow> jsstring" where
  "replace_non_AZ09 s = filter is_AZ09 s"

text \<open>\<open>.slice(0, 6)\<close>\<close>

definition slice_0_6 :: "jsstring \<Rightarrow> jsstring" where
  "slice_0_6 s = take 6 s"

text \<open>\<open>String.prototype.trim\<close> removes WhiteSpace and LineTerminator code points from both
  ends; all of them are single code units.\<close>

definition is_js_space :: "jschar \<Rightarrow> bool" where
  "is_js_space c \<longleftrightarrow>
     c \<in> {0x09, 0x0A, 0x0B, 0x0C, 0x0D, 0x20, 0xA0, 0x1680, 0x2028, 0x2029, 0x202F,
          0x205F, 0x3000, 0xFEFF} \<or> (0x2000 \<le> c \<and> c \<le> 0x200A)"

definition trim :: "jsstring \<Rightarrow> jsstring" where
  "trim s = rev (dropWhile is_js_space (rev (dropWhile is_js_space s)))"

section \<open>JSON values and \<open>JSON.stringify\<close>\<close>

text \<open>
  The values that \<open>JSON.parse\<close> returns and \<open>JSON.stringify\<close> prints. A number is a
  double; its arithmetic is outside this development, so the type of numbers is the
  parameter \<open>'n\<close> and the two conversions of the host (\<open>num_of\<close> from a numeric lexeme,
  \<open>num_str\<close> to the printed form) are parameters of the functions that need them.
  An object is the list of its own properties in property order.
\<close>

datatype 'n json =
    JNull
  | JBool bool
  | JNumber 'n
  | JString jsstring
  | JArray "'n json list"
  | JObject "(jsstring \<times> 'n json) list"

definition hex_digit :: "nat \<Rightarrow> jschar" where
  "hex_digit d = (if d < 10 then 0x30 + of_nat d else 0x61 + of_nat (d - 10))"

text \<open>\<open>UnicodeEscape\<close>: \<open>\uXXXX\<close> with four lowercase hexadecimal digits.\<close>

definition unicode_escape :: "jschar \<Rightarrow> jsstring" where
  "unicode_escape c =
     [0x5C, 0x75, hex_digit (unat c div 4096), hex_digit (unat c div 256 mod 16),
      hex_digit (unat c div 16 mod 16), hex_digit (unat c mod 16)]"

text \<open>One code point that is a single code unit, as \<open>QuoteJSONString\<close> prints it:
  the two-character escapes of backspace, tab, line feed, form feed, carriage return,
  the double quote and the backslash, \<open>UnicodeEscape\<close> for the other control characters
  and for a lone surrogate, and the unit itself otherwise.\<close>

definition quote_unit :: "jschar \<Rightarrow> jsstring" where
  "quote_unit c =
     (if c = 0x08 then [0x5C, 0x62]
      else if c = 0x09 then [0x5C, 0x74]
      else if c = 0x0A then [0x5C, 0x6E]
      else if c = 0x0C then [0x5C, 0x66]
      else if c = 0x0D then [0x5C, 0x72]
      else if c = 0x22 then [0x5C, 0x22]
      else if c = 0x5C then [0x5C, 0x5C]
      else if c < 0x20 \<or> is_high_surrogate c \<or> is_low_surrogate c then unicode_escape c
      else [c])"

fun quote_units :: "jsstring \<Rightarrow> jsstring" where
  "quote_units [] = []"
| "quote_units [c] = quote_unit c"
| "quote_units (c # d # ds) =
     (if is_high_surrogate c \<and> is_low_surrogate d then c # d # quote_units ds
      else quote_unit c @ quote_units (d # ds))"

definition QuoteJSONString :: "jsstring \<Rightarrow> jsstring" where
  "QuoteJSONString s = 0x22 # quote_units s @ [0x22]"

text \<open>The members of a list, separated by \<open>sep\<close>.\<close>

fun join_with :: "'a \<Rightarrow> 'a list list \<Rightarrow> 'a list" where
  "join_with sep [] = []"
| "join_with sep [x] = x"
| "join_with sep (x # y # ys) = x @ sep # join_with sep (y # ys)"

fun JSON_stringify :: "('n \<Rightarrow> jsstring) \<Rightarrow> 'n json \<Rightarrow> jsstring" where
  "JSON_stringify num_str JNull = js ''null''"
| "JSON_stringify num_str (JBool b) = (if b then js ''true'' else js ''false'')"
| "JSON_stringify num_str (JNumber n) = num_str n"
| "JSON_stringify num_str (JString s) = QuoteJSONString s"
| "JSON_stringify num_str (JArray vs) =
     0x5B # join_with 0x2C (map (JSON_stringify num_str) vs) @ [0x5D]"
| "JSON_stringify num_str (JObject kvs) =
     0x7B # join_with 0x2C (map (\<lambda>kv. QuoteJSONString (fst kv) @ 0x3A # JSON_stringify num_str (snd kv)) kvs)
       @ [0x7D]"

section \<open>\<open>JSON.parse\<close>\<close>

text \<open>
  \<open>JSON.parse\<close> is a built-in of the host. It is modelled by a lexer from code units to
  tokens and a parser from tokens to values; a text outside the JSON grammar makes it throw
  a \<open>SyntaxError\<close>.
\<close>

datatype token =
    TLBrace | TRBrace | TLBrack | TRBrack | TColon | TComma
  | TString jsstring | TNumber jsstring | TTrue | TFalse | TNull

definition is_json_ws :: "jschar \<Rightarrow> bool" where
  "is_json_ws c \<longleftrightarrow> c = 0x09 \<or> c = 0x0A \<or> c = 0x0D \<or> c = 0x20"

definition is_digit :: "jschar \<Rightarrow> bool" where
  "is_digit c \<longleftrightarrow> 0x30 \<le> c \<and> c \<le> 0x39"

definition hex_value :: "jschar \<Rightarrow> nat option" where
  "hex_value c =
     (if 0x30 \<le> c \<and> c \<le> 0x39 then Some (unat c - 0x30)
      else if 0x61 \<le> c \<and> c \<le> 0x66 then Some (unat c - 0x61 + 10)
      else if 0x41 \<le> c \<and> c \<le> 0x46 then Some (unat c - 0x41 + 10)
      else None)"

definition hex4 :: "jschar \<Rightarrow> jschar \<Rightarrow> jschar \<Rightarrow> jschar \<Rightarrow> jschar option" where
  "hex4 a b c d =
     (case (hex_value a, hex_value b, hex_value c, hex_value d) of
        (Some x3, Some x2, Some x1, Some x0) \<Rightarrow> Some (of_nat (((x3 * 16 + x2) * 16 + x1) * 16 + x0))
      | _ \<Rightarrow> None)"

definition unescape :: "jschar \<Rightarrow> jschar option" where
  "unescape e =
     (if e = 0x22 \<or> e = 0x5C \<or> e = 0x2F then Some e
      else if e = 0x62 then Some 0x08
      else if e = 0x66 then Some 0x0C
      else if e = 0x6E then Some 0x0A
      else if e = 0x72 then Some 0x0D
      else if e = 0x74 then Some 0x09
      else None)"

text \<open>The contents of a string literal after its opening quote: the decoded code units and
  the input after the closing quote.\<close>

definition consumed :: "'a \<Rightarrow> ('a list \<times> 'b) option \<Rightarrow> ('a list \<times> 'b) option" where
  "consumed c r = map_option (\<lambda>(s, rest). (c # s, rest)) r"

fun lex_string :: "jsstring \<Rightarrow> (jsstring \<times> jsstring) option" where
  "lex_string [] = None"
| "lex_string (c # cs) =
     (if c = 0x22 then Some ([], cs)
      else if c = 0x5C then
        (case cs of
           [] \<Rightarrow> None
         | e # es \<Rightarrow>
             if e = 0x75 then
               (case es of
                  h1 # h2 # h3 # h4 # rest \<Rightarrow>
                    (case hex4 h1 h2 h3 h4 of
                       None \<Rightarrow> None
                     | Some u \<Rightarrow> consumed u (lex_string rest))
                | _ \<Rightarrow> None)
             else
               (case unescape e of
                  None \<Rightarrow> None
                | Some u \<Rightarrow> consumed u (lex_string es)))
      else if c < 0x20 then None
      else consumed c (lex_string cs))"


lemma lex_string_shorter: "lex_string s = Some (str, rest) \<Longrightarrow> length rest < length s"
proof (induction s arbitrary: str rest rule: length_induct)
  case (1 xs)
  show ?case
  proof (cases xs)
    case Nil
    with 1 show ?thesis by simp
  next
    case (Cons c cs)
    with 1(2) show ?thesis
      by (auto simp: consumed_def split: if_splits list.splits option.splits
               dest!: 1(1) [rule_format, rotated])
  qed
qed

text \<open>A numeric lexeme: \<open>-? (0 | [1-9][0-9]*) (. [0-9]+)? ([eE] [+-]? [0-9]+)?\<close>.\<close>

definition lex_exponent :: "jsstring \<Rightarrow> (jsstring \<times> jsstring) option" where
  "lex_exponent s =
     (case s of
        e # s1 \<Rightarrow>
          if e = 0x65 \<or> e = 0x45 then
            (let sg = (case s1 of c # _ \<Rightarrow> if c = 0x2B \<or> c = 0x2D then [c] else [] | [] \<Rightarrow> []);
                 s2 = drop (length sg) s1;
                 ds = takeWhile is_digit s2
             in if ds = [] then None else Some (e # sg @ ds, dropWhile is_digit s2))
          else Some ([], s)
      | [] \<Rightarrow> Some ([], s))"

definition lex_fraction :: "jsstring \<Rightarrow> (jsstring \<times> jsstring) option" where
  "lex_fraction s =
     (case s of
        p # s1 \<Rightarrow>
          if p = 0x2E then
            (let ds = takeWhile is_digit s1
             in if ds = [] then None else Some (p # ds, dropWhile is_digit s1))
          else Some ([], s)
      | [] \<Rightarrow> Some ([], s))"

definition lex_integer :: "jsstring \<Rightarrow> (jsstring \<times> jsstring) option" where
  "lex_integer s =
     (case s of
        d # s1 \<Rightarrow>
          if d = 0x30 then Some ([d], s1)
          else if is_digit d then Some (d # takeWhile is_digit s1, dropWhile is_digit s1)
          else None
      | [] \<Rightarrow> None)"

definition lex_number :: "jsstring \<Rightarrow> (jsstring \<times> jsstring) option" where
  "lex_number s =
     (let sg = (case s of c # _ \<Rightarrow> if c = 0x2D then [c] else [] | [] \<Rightarrow> []) in
      case lex_integer (drop (length sg) s) of
        None \<Rightarrow> None
      | Some (i, s1) \<Rightarrow>
          (case lex_fraction s1 of
             None \<Rightarrow> None
           | Some (f, s2) \<Rightarrow>
               (case lex_exponent s2 of
                  None \<Rightarrow> None
                | Some (e, s3) \<Rightarrow> Some (sg @ i @ f @ e, s3))))"

lemma length_dropWhile_le_input: "length (dropWhile P xs) \<le> length xs"
  by (induction xs) auto

lemma lex_exponent_le: "lex_exponent s = Some (l, rest) \<Longrightarrow> length rest \<le> length s"
  using length_dropWhile_le_input [of is_digit "drop (length (case tl s of c # _ \<Rightarrow> if c = 0x2B \<or> c = 0x2D then [c] else [] | [] \<Rightarrow> [])) (tl s)"]
  by (auto simp: lex_exponent_def Let_def split: list.splits if_splits)

lemma lex_fraction_le: "lex_fraction s = Some (l, rest) \<Longrightarrow> length rest \<le> length s"
  using length_dropWhile_le_input [of is_digit "tl s"]
  by (auto simp: lex_fraction_def Let_def split: list.splits if_splits)

lemma lex_integer_less: "lex_integer s = Some (l, rest) \<Longrightarrow> length rest < length s"
  using length_dropWhile_le_input [of is_digit "tl s"]
  by (auto simp: lex_integer_def split: list.splits if_splits)

lemma lex_number_shorter: "lex_number s = Some (l, rest) \<Longrightarrow> length rest < length s"
proof -
  assume a: "lex_number s = Some (l, rest)"
  define s0 where "s0 = drop (length (case s of c # _ \<Rightarrow> if c = 0x2D then [c] else [] | [] \<Rightarrow> [])) s"
  from a obtain i s1 f s2 e where
    1: "lex_integer s0 = Some (i, s1)" and 2: "lex_fraction s1 = Some (f, s2)"
    and 3: "lex_exponent s2 = Some (e, rest)"
    by (auto simp: lex_number_def Let_def s0_def split: option.splits)
  have "length s0 \<le> length s" by (simp add: s0_def)
  with lex_integer_less [OF 1] lex_fraction_le [OF 2] lex_exponent_le [OF 3]
  show ?thesis by linarith
qed

text \<open>The tokens of a text. White space between tokens is tab, line feed, carriage return
  and space.\<close>

function tokenize :: "jsstring \<Rightarrow> token list option" where
  "tokenize [] = Some []"
| "tokenize (c # cs) =
     (if is_json_ws c then tokenize cs
      else if c = 0x7B then map_option ((#) TLBrace) (tokenize cs)
      else if c = 0x7D then map_option ((#) TRBrace) (tokenize cs)
      else if c = 0x5B then map_option ((#) TLBrack) (tokenize cs)
      else if c = 0x5D then map_option ((#) TRBrack) (tokenize cs)
      else if c = 0x3A then map_option ((#) TColon) (tokenize cs)
      else if c = 0x2C then map_option ((#) TComma) (tokenize cs)
      else if c = 0x22 then
        (case lex_string cs of
           None \<Rightarrow> None
         | Some (str, rest) \<Rightarrow> map_option ((#) (TString str)) (tokenize rest))
      else if c = 0x2D \<or> is_digit c then
        (case lex_number (c # cs) of
           None \<Rightarrow> None
         | Some (lexeme, rest) \<Rightarrow> map_option ((#) (TNumber lexeme)) (tokenize rest))
      else if prefix (js ''true'') (c # cs) then map_option ((#) TTrue) (tokenize (drop 3 cs))
      else if prefix (js ''false'') (c # cs) then map_option ((#) TFalse) (tokenize (drop 4 cs))
      else if prefix (js ''null'') (c # cs) then map_option ((#) TNull) (tokenize (drop 3 cs))
      else None)"
  by pat_completeness auto
termination
  by (relation "measure length") (auto dest: lex_string_shorter lex_number_shorter)


text \<open>
  Property order of an object: the keys that are array indices (canonical decimal numerals
  up to \<open>2^32 - 2\<close>) come first, in ascending numeric order, then the other keys in the order
  of their creation. Defining a key that exists replaces its value in place.
\<close>

definition array_index :: "jsstring \<Rightarrow> nat option" where
  "array_index k =
     (let n = foldl (\<lambda>a c. a * 10 + (unat c - 0x30)) 0 k in
      if k = [0x30] then Some 0
      else if k \<noteq> [] \<and> list_all is_digit k \<and> hd k \<noteq> 0x30 \<and> n \<le> 4294967294 then Some n
      else None)"

fun insert_index :: "nat \<Rightarrow> jsstring \<Rightarrow> 'v \<Rightarrow> (jsstring \<times> 'v) list \<Rightarrow> (jsstring \<times> 'v) list" where
  "insert_index i k v [] = [(k, v)]"
| "insert_index i k v (kv # kvs) =
     (case array_index (fst kv) of
        None \<Rightarrow> (k, v) # kv # kvs
      | Some j \<Rightarrow> if j < i then kv # insert_index i k v kvs else (k, v) # kv # kvs)"

definition obj_put :: "jsstring \<Rightarrow> 'v \<Rightarrow> (jsstring \<times> 'v) list \<Rightarrow> (jsstring \<times> 'v) list" where
  "obj_put k v kvs =
     (if k \<in> fst ` set kvs then map (\<lambda>kv. if fst kv = k then (k, v) else kv) kvs
      else case array_index k of
        None \<Rightarrow> kvs @ [(k, v)]
      | Some i \<Rightarrow> insert_index i k v kvs)"

text \<open>
  The parser reads the tokens from left to right and keeps the arrays and objects that are
  still open on a stack: an open array with its elements so far (last first), an open
  object with its properties so far and the key whose value is being read.
\<close>

datatype 'n frame =
    FArray "'n json list"
  | FObject "(jsstring \<times> 'n json) list" jsstring

fun parse_value :: "(jsstring \<Rightarrow> 'n) \<Rightarrow> 'n frame list \<Rightarrow> token list \<Rightarrow> 'n json option"
  and parse_after :: "(jsstring \<Rightarrow> 'n) \<Rightarrow> 'n json \<Rightarrow> 'n frame list \<Rightarrow> token list \<Rightarrow> 'n json option"
where
  "parse_value num_of st [] = None"
| "parse_value num_of st (t # ts) =
     (case t of
        TLBrack \<Rightarrow>
          (case ts of
             TRBrack # ts' \<Rightarrow> parse_after num_of (JArray []) st ts'
           | _ \<Rightarrow> parse_value num_of (FArray [] # st) ts)
      | TLBrace \<Rightarrow>
          (case ts of
             TRBrace # ts' \<Rightarrow> parse_after num_of (JObject []) st ts'
           | TString k # TColon # ts' \<Rightarrow> parse_value num_of (FObject [] k # st) ts'
           | _ \<Rightarrow> None)
      | TString s \<Rightarrow> parse_after num_of (JString s) st ts
      | TNumber l \<Rightarrow> parse_after num_of (JNumber (num_of l)) st ts
      | TTrue \<Rightarrow> parse_after num_of (JBool True) st ts
      | TFalse \<Rightarrow> parse_after num_of (JBool False) st ts
      | TNull \<Rightarrow> parse_after num_of JNull st ts
      | _ \<Rightarrow> None)"
| "parse_after num_of v [] ts = (if ts = [] then Some v else None)"
| "parse_after num_of v (f # st) [] = None"
| "parse_after num_of v (f # st) (t # ts) =
     (case f of
        FArray acc \<Rightarrow>
          if t = TComma then parse_value num_of (FArray (v # acc) # st) ts
          else if t = TRBrack then parse_after num_of (JArray (rev (v # acc))) st ts
          else None
      | FObject acc k \<Rightarrow>
          if t = TComma then
            (case ts of
               TString k' # TColon # ts' \<Rightarrow> parse_value num_of (FObject (obj_put k v acc) k' # st) ts'
             | _ \<Rightarrow> None)
          else if t = TRBrace then parse_after num_of (JObject (obj_put k v acc)) st ts
          else None)"

datatype js_error = SyntaxError | TypeError

definition JSON_parse :: "(jsstring \<Rightarrow> 'n) \<Rightarrow> jsstring \<Rightarrow> js_error + 'n json" where
  "JSON_parse num_of s =
     (case tokenize s of
        None \<Rightarrow> Inl SyntaxError
      | Some ts \<Rightarrow>
          (case parse_value num_of [] ts of
             None \<Rightarrow> Inl SyntaxError
           | Some v \<Rightarrow> Inr v))"

section \<open>The component state\<close>

datatype mode = Local | Remote

datatype status = Idle | Waiting | Connecting | Connected | Disconnected | Error

text \<open>
  The \<open>useState\<close> cells and refs of \<open>App\<close> that the session and synchronisation code reads
  or writes (\<open>text'\<close> is the cell \<open>text\<close>). \<open>socketRef\<close> holds the room code the live socket
  was opened with, or \<open>None\<close> for \<open>null\<close>; \<open>saveTimerRef\<close> tells whether the ref holds a
  timer id (it is never reset to \<open>null\<close>).
\<close>

record 'n app_state =
  mode :: mode
  text' :: jsstring
  attachments :: "'n json list"
  sessionCode :: jsstring
  manualCode :: jsstring
  status :: status
  infoTab :: jsstring
  isUploading :: bool
  hasUnsavedChanges :: bool
  isSaving :: bool
  socketRef :: "jsstring option"
  saveTimerRef :: bool

definition initial_state :: "'n app_state" where
  "initial_state = \<lparr> mode = Local, text' = [], attachments = [], sessionCode = [],
     manualCode = [], status = Idle, infoTab = [], isUploading = False,
     hasUnsavedChanges = False, isSaving = False, socketRef = None, saveTimerRef = False \<rparr>"

record js_file =
  fname :: jsstring
  ftype :: jsstring
  fsize :: nat

text \<open>What a handler does to the world outside the component state.\<close>

datatype effect =
    Emit jsstring  \<comment> \<open>\<open>socket.emit('update-data', payload)\<close>\<close>
  | Alert jsstring
  | SocketOpen jsstring  \<comment> \<open>\<open>io(SHARE_SERVER, {query: {roomCode}})\<close>\<close>
  | SocketDisconnect
  | ReadAsDataURL js_file
  | ResetFileInput  \<comment> \<open>\<open>event.target.value = ''\<close>\<close>
  | ClearTimeout
  | SetTimeout nat

definition LOCAL_ROOM :: jsstring where
  "LOCAL_ROOM = js ''LOCAL-NET''"

definition MAX_FILE_SIZE :: nat where
  "MAX_FILE_SIZE = 5 * 1024 * 1024"

section \<open>Room resolution and the connection effect\<close>

text \<open>\<open>const roomCode = isLocalMode ? LOCAL_ROOM : sessionCode\<close>, the same in both variants
  of the component.\<close>

definition roomCode :: "mode \<Rightarrow> jsstring \<Rightarrow> jsstring" where
  "roomCode m code = (if m = Local then LOCAL_ROOM else code)"

text \<open>
  The cleanup function that the connection effect returned when it ran for the room \<open>rc\<close>.
  For the empty room the effect returned early and there is none. Otherwise the closure
  calls \<open>socket.disconnect()\<close> on the socket it opened and sets \<open>socketRef.current\<close> to
  \<open>null\<close>, whether or not the ref still holds that socket.
\<close>

definition room_cleanup :: "jsstring \<Rightarrow> 'n app_state \<Rightarrow> 'n app_state \<times> effect list" where
  "room_cleanup rc st =
     (if rc = [] then (st, []) else (st\<lparr>socketRef := None\<rparr>, [SocketDisconnect]))"

text \<open>The body of \<open>useEffect(..., [roomCode])\<close>. \<open>!roomCode\<close> holds of the empty string.\<close>

definition room_effect :: "'n app_state \<Rightarrow> 'n app_state \<times> effect list" where
  "room_effect st =
     (let rc = roomCode (mode st) (sessionCode st) in
      if rc = [] then
        (case socketRef st of
           None \<Rightarrow> (st\<lparr>status := Waiting\<rparr>, [])
         | Some _ \<Rightarrow> (st\<lparr>status := Waiting, socketRef := None\<rparr>, [SocketDisconnect]))
      else (st\<lparr>status := Connecting, socketRef := Some rc\<rparr>, [SocketOpen rc]))"

section \<open>Session codes\<close>

text \<open>The chain \<open>.toUpperCase().replace(/[^A-Z0-9]/g, '').slice(0, 6)\<close> of
  \<open>startRemoteSession\<close> and \<open>handleCodeChange\<close>; \<open>code ?? ''\<close> turns an absent code into
  the empty string.\<close>

definition normalized :: "case_table \<Rightarrow> jsstring option \<Rightarrow> jsstring" where
  "normalized U code =
     slice_0_6 (replace_non_AZ09 (toUpperCase U (case code of None \<Rightarrow> [] | Some s \<Rightarrow> s)))"

definition startRemoteSession :: "case_table \<Rightarrow> jsstring option \<Rightarrow> 'n app_state \<Rightarrow> 'n app_state" where
  "startRemoteSession U code st =
     (let n = normalized U code in
      if n = [] then st
      else st\<lparr>mode := Remote, sessionCode := n, manualCode := n, infoTab := js ''remote''\<rparr>)"

definition joinWithCode :: "case_table \<Rightarrow> 'n app_state \<Rightarrow> 'n app_state" where
  "joinWithCode U st =
     (if trim (manualCode st) = [] then st else startRemoteSession U (Some (manualCode st)) st)"

definition handleCodeChange :: "case_table \<Rightarrow> jsstring \<Rightarrow> 'n app_state \<Rightarrow> 'n app_state" where
  "handleCodeChange U v st =
     st\<lparr>manualCode := slice_0_6 (replace_non_AZ09 (toUpperCase U v))\<rparr>"

definition resetRemoteSession :: "'n app_state \<Rightarrow> 'n app_state \<times> effect list" where
  "resetRemoteSession st =
     (st\<lparr>mode := Local, sessionCode := [], manualCode := [], text' := [], attachments := [],
         status := Idle, socketRef := None, infoTab := [], hasUnsavedChanges := False\<rparr>,
      case socketRef st of None \<Rightarrow> [] | Some _ \<Rightarrow> [SocketDisconnect])"

definition toggleInfoTab :: "jsstring \<Rightarrow> 'n app_state \<Rightarrow> 'n app_state" where
  "toggleInfoTab tabKey st = st\<lparr>infoTab := (if infoTab st = tabKey then [] else tabKey)\<rparr>"

definition openRemoteShortcut :: "'n app_state \<Rightarrow> 'n app_state" where
  "openRemoteShortcut st = st\<lparr>infoTab := js ''remote''\<rparr>"

section \<open>Local edits and attachments\<close>

definition handleTextChange :: "jsstring \<Rightarrow> 'n app_state \<Rightarrow> 'n app_state" where
  "handleTextChange v st = st\<lparr>text' := v, hasUnsavedChanges := True\<rparr>"

definition handleFileSelected :: "js_file option \<Rightarrow> 'n app_state \<Rightarrow> 'n app_state \<times> effect list" where
  "handleFileSelected file st =
     (case file of
        None \<Rightarrow> (st, [])
      | Some f \<Rightarrow>
          if fsize f > MAX_FILE_SIZE then
            (st, [Alert (js ''File is too large. Please pick something under 5MB.''), ResetFileInput])
          else (st\<lparr>isUploading := True\<rparr>, [ReadAsDataURL f]))"

text \<open>The markup that \<open>reader.onload\<close> appends for a file read as the data URL \<open>result\<close>.\<close>

definition snippet :: "js_file \<Rightarrow> jsstring \<Rightarrow> jsstring" where
  "snippet f result =
     (if prefix (js ''image/'') (ftype f) then js ''!['' @ fname f @ js ''](''  @ result @ js '')''
      else if prefix (js ''video/'') (ftype f) then
        js ''<video controls src='' @ [0x22] @ result @ [0x22] @ js ''></video>''
      else js ''['' @ fname f @ js ''](''  @ result @ js '')'')"

text \<open>An attachment \<open>{id, name, type, dataUrl}\<close> and the object that holds it.\<close>

datatype attachment =
  Attachment (att_id: jsstring) (att_name: jsstring) (att_type: jsstring) (att_dataUrl: jsstring)

definition attachment_object :: "attachment \<Rightarrow> 'n json" where
  "attachment_object a =
     JObject [(js ''id'', JString (att_id a)), (js ''name'', JString (att_name a)),
              (js ''type'', JString (att_type a)), (js ''dataUrl'', JString (att_dataUrl a))]"

text \<open>
  \<open>reader.onload\<close>. The closure reads the \<open>text\<close> of the render in which the file was
  selected (\<open>captured\<close>), while the attachment is appended to the current list. \<open>result\<close> is
  \<open>None\<close> when \<open>reader.result\<close> is not a string; \<open>ident\<close> is the fresh id drawn from
  \<open>crypto.randomUUID\<close> or the clock.
\<close>

definition reader_onload ::
  "jsstring \<Rightarrow> js_file \<Rightarrow> jsstring option \<Rightarrow> jsstring \<Rightarrow> 'n app_state \<Rightarrow> 'n app_state \<times> effect list" where
  "reader_onload captured f result ident st =
     (case result of
        None \<Rightarrow> (st\<lparr>isUploading := False\<rparr>, [ResetFileInput])
      | Some r \<Rightarrow>
          (let nextText =
                 (if captured \<noteq> [] then captured @ [0x0A, 0x0A] @ snippet f r else snippet f r)
           in (st\<lparr>text' := nextText,
                  attachments := attachments st @ [attachment_object (Attachment ident (fname f) (ftype f) r)],
                  hasUnsavedChanges := True, isUploading := False\<rparr>,
               [ResetFileInput])))"

definition reader_onerror :: "'n app_state \<Rightarrow> 'n app_state \<times> effect list" where
  "reader_onerror st =
     (st\<lparr>isUploading := False\<rparr>,
      [Alert (js ''Unable to read that file. Please try another.''), ResetFileInput])"

section \<open>Outbound synchronisation\<close>

text \<open>The \<open>payload\<close> of \<open>syncPayload\<close>:
  \<open>JSON.stringify({text: nextTextValue, attachments: nextAttachmentsValue})\<close>.\<close>

definition update_data_payload :: "('n \<Rightarrow> jsstring) \<Rightarrow> jsstring \<Rightarrow> 'n json list \<Rightarrow> jsstring" where
  "update_data_payload num_str nextTextValue nextAttachmentsValue =
     JSON_stringify num_str
       (JObject [(js ''text'', JString nextTextValue),
                 (js ''attachments'', JArray nextAttachmentsValue)])"

text \<open>\<open>socketRef.current?.emit('update-data', payload)\<close> emits when a socket is bound.\<close>

definition syncPayload ::
  "('n \<Rightarrow> jsstring) \<Rightarrow> jsstring \<Rightarrow> 'n json list \<Rightarrow> 'n app_state \<Rightarrow> effect list" where
  "syncPayload num_str nextTextValue nextAttachmentsValue st =
     (case socketRef st of
        None \<Rightarrow> []
      | Some _ \<Rightarrow> [Emit (update_data_payload num_str nextTextValue nextAttachmentsValue)])"

definition handleSave :: "('n \<Rightarrow> jsstring) \<Rightarrow> 'n app_state \<Rightarrow> 'n app_state \<times> effect list" where
  "handleSave num_str st =
     (if \<not> hasUnsavedChanges st then (st, [])
      else if status st \<noteq> Connected then
        (st, [Alert (js ''Connection is not ready yet. Please wait until the session is live before saving.'')])
      else
        (st\<lparr>isSaving := True, hasUnsavedChanges := False, saveTimerRef := True\<rparr>,
         (if saveTimerRef st then [ClearTimeout] else [])
           @ syncPayload num_str (text' st) (attachments st) st @ [SetTimeout 600]))"

text \<open>The callback of the save-indicator timer.\<close>

definition save_timer_fired :: "'n app_state \<Rightarrow> 'n app_state" where
  "save_timer_fired st = st\<lparr>isSaving := False\<rparr>"

definition handleClear :: "('n \<Rightarrow> jsstring) \<Rightarrow> 'n app_state \<Rightarrow> 'n app_state \<times> effect list" where
  "handleClear num_str st =
     (if text' st = [] \<and> attachments st = [] then (st, [])
      else (st\<lparr>text' := [], attachments := [], hasUnsavedChanges := False\<rparr>,
            syncPayload num_str [] [] st))"

section \<open>Inbound synchronisation\<close>

text \<open>The payload of a \<open>sync-data\<close> event: a string, or a value of any other type.\<close>

datatype wire = Str jsstring | NonString

text \<open>
  Reading the property \<open>text\<close> or \<open>attachments\<close> of a parsed value: \<open>null\<close> has no
  properties and the access throws a \<open>TypeError\<close>; an object gives its own property, if
  any; no other value (and no built-in prototype) has a property of either name, which is
  \<open>undefined\<close>, here \<open>None\<close>.
\<close>

definition get_property :: "'n json \<Rightarrow> jsstring \<Rightarrow> js_error + 'n json option" where
  "get_property v name =
     (case v of
        JNull \<Rightarrow> Inl TypeError
      | JObject kvs \<Rightarrow> Inr (map_of kvs name)
      | _ \<Rightarrow> Inr None)"

text \<open>
  A statement block either completes with a state or throws an error from a state.
  \<open>try_catch_finally\<close> is the \<open>try { } catch { } finally { }\<close> statement.
\<close>

type_synonym ('e, 's) completion = "'e \<times> 's + 's"

definition try_catch_finally ::
  "('e, 's) completion \<Rightarrow> ('e \<Rightarrow> 's \<Rightarrow> ('e, 's) completion) \<Rightarrow> ('s \<Rightarrow> ('e, 's) completion)
     \<Rightarrow> ('e, 's) completion" where
  "try_catch_finally body handler finalizer =
     (case (case body of Inl (e, s) \<Rightarrow> handler e s | Inr s \<Rightarrow> Inr s) of
        Inl (e, s) \<Rightarrow> (case finalizer s of Inl x \<Rightarrow> Inl x | Inr s' \<Rightarrow> Inl (e, s'))
      | Inr s \<Rightarrow> finalizer s)"

text \<open>The \<open>try\<close> block of the \<open>sync-data\<close> handler of the attachment variant; \<open>parse\<close> is
  \<open>JSON.parse\<close>.\<close>

definition sync_data_try ::
  "(jsstring \<Rightarrow> js_error + 'n json) \<Rightarrow> jsstring \<Rightarrow> 'n app_state \<Rightarrow> (js_error, 'n app_state) completion" where
  "sync_data_try parse payload st =
     (case parse payload of
        Inl e \<Rightarrow> Inl (e, st)
      | Inr parsed \<Rightarrow>
          (case get_property parsed (js ''text'') of
             Inl e \<Rightarrow> Inl (e, st)
           | Inr t \<Rightarrow>
               (let st1 = st\<lparr>text' := (case t of Some (JString x) \<Rightarrow> x | _ \<Rightarrow> [])\<rparr> in
                case get_property parsed (js ''attachments'') of
                  Inl e \<Rightarrow> Inl (e, st1)
                | Inr a \<Rightarrow> Inr (st1\<lparr>attachments := (case a of Some (JArray xs) \<Rightarrow> xs | _ \<Rightarrow> [])\<rparr>))))"

definition on_sync_data ::
  "(jsstring \<Rightarrow> js_error + 'n json) \<Rightarrow> wire \<Rightarrow> 'n app_state \<Rightarrow> (js_error, 'n app_state) completion" where
  "on_sync_data parse payload st =
     (case payload of
        NonString \<Rightarrow> Inr (st\<lparr>text' := [], attachments := [], hasUnsavedChanges := False\<rparr>)
      | Str p \<Rightarrow>
          try_catch_finally (sync_data_try parse p st)
            (\<lambda>err s. Inr (s\<lparr>text' := p, attachments := []\<rparr>))
            (\<lambda>s. Inr (s\<lparr>hasUnsavedChanges := False\<rparr>)))"

text \<open>A structurally invalid payload, the truncated text \<open>{"text":\<close>.\<close>

definition truncated_payload :: jsstring where
  "truncated_payload = js ''{'' @ [0x22] @ js ''text'' @ [0x22] @ js '':''"

section \<open>The minimal variant (\<open>src/App.jsx\<close>)\<close>

text \<open>The variant without attachments pushes every edit at once and sends and receives
  the bare text.\<close>

record app0_state =
  mode0 :: mode
  text0 :: jsstring
  sessionCode0 :: jsstring
  manualCode0 :: jsstring
  status0 :: status
  socketRef0 :: "jsstring option"

definition initial_state0 :: app0_state where
  "initial_state0 = \<lparr> mode0 = Local, text0 = [], sessionCode0 = [], manualCode0 = [],
     status0 = Idle, socketRef0 = None \<rparr>"

text \<open>The connection effect of the minimal variant, in a browser.\<close>

definition room_effect0 :: "app0_state \<Rightarrow> app0_state \<times> effect list" where
  "room_effect0 st =
     (let rc = roomCode (mode0 st) (sessionCode0 st) in
      if rc = [] then
        (case socketRef0 st of
           None \<Rightarrow> (st\<lparr>status0 := Waiting\<rparr>, [])
         | Some _ \<Rightarrow> (st\<lparr>status0 := Waiting, socketRef0 := None\<rparr>, [SocketDisconnect]))
      else (st\<lparr>status0 := Connecting, socketRef0 := Some rc\<rparr>, [SocketOpen rc]))"

definition mounted0 :: app0_state where
  "mounted0 = fst (room_effect0 initial_state0)"

text \<open>\<open>joinSession\<close> only trims and uppercases the code.\<close>

definition joinSession :: "case_table \<Rightarrow> jsstring \<Rightarrow> app0_state \<Rightarrow> app0_state" where
  "joinSession U code st =
     (let normalizedCode = toUpperCase U (trim code) in
      if normalizedCode = [] then st else st\<lparr>sessionCode0 := normalizedCode, mode0 := Remote\<rparr>)"

text \<open>
  \<open>createRemoteSession\<close>, from the answer of \<open>POST /api/session\<close> on: the \<open>code\<close> of the
  answer is stored as it came.
\<close>

definition createRemoteSession0 :: "jsstring \<Rightarrow> app0_state \<Rightarrow> app0_state" where
  "createRemoteSession0 code st = st\<lparr>sessionCode0 := code, manualCode0 := code, mode0 := Remote\<rparr>"

definition syncPayload0 :: "jsstring \<Rightarrow> app0_state \<Rightarrow> effect list" where
  "syncPayload0 nextTextValue st =
     (case socketRef0 st of None \<Rightarrow> [] | Some _ \<Rightarrow> [Emit nextTextValue])"

definition handleTextChange0 :: "jsstring \<Rightarrow> app0_state \<Rightarrow> app0_state \<times> effect list" where
  "handleTextChange0 v st = (st\<lparr>text0 := v\<rparr>, syncPayload0 v st)"

text \<open>\<open>setText(content || '')\<close> at a string payload: the empty string is falsy and is
  replaced by the empty string.\<close>

definition on_sync_data0 :: "jsstring \<Rightarrow> app0_state \<Rightarrow> (js_error, app0_state) completion" where
  "on_sync_data0 content st = Inr (st\<lparr>text0 := (if content = [] then [] else content)\<rparr>)"

section \<open>Events\<close>

text \<open>
  The handlers run one at a time, each on the state the previous one left. After a handler
  the component renders again, and the connection effect runs (cleanup first) when
  \<open>roomCode\<close> has changed. The socket callbacks fire only for the bound socket.
  \<open>CreatedSession code\<close> is the answer of \<open>POST /api/session\<close> reaching
  \<open>startRemoteSession(data.code)\<close>; a code that is neither a string nor absent makes
  \<open>toUpperCase\<close> throw into the \<open>catch\<close> of \<open>createRemoteSession\<close>, which leaves these
  cells as an absent code does. The render itself is taken to succeed: a render that
  throws (the attachment list reads \<open>file.id\<close> of every attachment, which throws for an
  attachment \<open>null\<close>) unmounts the component and no handler runs afterwards, so the states
  of \<open>run\<close> include every state the component reaches.
\<close>

datatype event =
    TextChange jsstring
  | Save
  | Clear
  | FileSelected "js_file option"
  | ReaderLoad jsstring js_file "jsstring option" jsstring
  | ReaderError
  | CreatedSession "jsstring option"
  | JoinWithCode
  | CodeChange jsstring
  | ResetRemoteSession
  | SocketConnect
  | SocketDisconnected
  | SocketConnectError
  | SyncData wire
  | SaveTimerFired
  | ToggleInfoTab jsstring
  | OpenRemoteShortcut

definition when_bound :: "'n app_state \<Rightarrow> 'n app_state \<Rightarrow> 'n app_state \<times> effect list" where
  "when_bound st st1 = (case socketRef st of None \<Rightarrow> (st, []) | Some _ \<Rightarrow> (st1, []))"

fun handle ::
  "case_table \<Rightarrow> (jsstring \<Rightarrow> 'n) \<Rightarrow> ('n \<Rightarrow> jsstring) \<Rightarrow> event \<Rightarrow> 'n app_state
     \<Rightarrow> 'n app_state \<times> effect list" where
  "handle U num_of num_str (TextChange v) st = (handleTextChange v st, [])"
| "handle U num_of num_str Save st = handleSave num_str st"
| "handle U num_of num_str Clear st = handleClear num_str st"
| "handle U num_of num_str (FileSelected f) st = handleFileSelected f st"
| "handle U num_of num_str (ReaderLoad t f r i) st = reader_onload t f r i st"
| "handle U num_of num_str ReaderError st = reader_onerror st"
| "handle U num_of num_str (CreatedSession code) st = (startRemoteSession U code st, [])"
| "handle U num_of num_str JoinWithCode st = (joinWithCode U st, [])"
| "handle U num_of num_str (CodeChange v) st = (handleCodeChange U v st, [])"
| "handle U num_of num_str ResetRemoteSession st = resetRemoteSession st"
| "handle U num_of num_str SocketConnect st = when_bound st (st\<lparr>status := Connected\<rparr>)"
| "handle U num_of num_str SocketDisconnected st = when_bound st (st\<lparr>status := Disconnected\<rparr>)"
| "handle U num_of num_str SocketConnectError st = when_bound st (st\<lparr>status := Error\<rparr>)"
| "handle U num_of num_str (SyncData payload) st =
     when_bound st (case on_sync_data (JSON_parse num_of) payload st of Inr s \<Rightarrow> s | Inl (e, s) \<Rightarrow> s)"
| "handle U num_of num_str SaveTimerFired st = (save_timer_fired st, [])"
| "handle U num_of num_str (ToggleInfoTab k) st = (toggleInfoTab k st, [])"
| "handle U num_of num_str OpenRemoteShortcut st = (openRemoteShortcut st, [])"

text \<open>The buttons that call \<open>resetRemoteSession\<close> are rendered only in remote mode or
  next to a session code; every other handler guards itself.\<close>

fun offered :: "event \<Rightarrow> 'n app_state \<Rightarrow> bool" where
  "offered ResetRemoteSession st \<longleftrightarrow> mode st \<noteq> Local \<or> sessionCode st \<noteq> []"
| "offered _ st \<longleftrightarrow> True"

definition fire ::
  "case_table \<Rightarrow> (jsstring \<Rightarrow> 'n) \<Rightarrow> ('n \<Rightarrow> jsstring) \<Rightarrow> event \<Rightarrow> 'n app_state
     \<Rightarrow> 'n app_state \<times> effect list" where
  "fire U num_of num_str e st =
     (let (st1, fx1) = (if offered e st then handle U num_of num_str e st else (st, [])) in
      if roomCode (mode st1) (sessionCode st1) = roomCode (mode st) (sessionCode st) then (st1, fx1)
      else
        (let (st2, fx2) = room_cleanup (roomCode (mode st) (sessionCode st)) st1;
             (st3, fx3) = room_effect st2
         in (st3, fx1 @ fx2 @ fx3)))"

text \<open>The state after the first render and its effect.\<close>

definition mounted :: "'n app_state" where
  "mounted = fst (room_effect initial_state)"

fun run ::
  "case_table \<Rightarrow> (jsstring \<Rightarrow> 'n) \<Rightarrow> ('n \<Rightarrow> jsstring) \<Rightarrow> event list \<Rightarrow> 'n app_state
     \<Rightarrow> 'n app_state" where
  "run U num_of num_str [] st = st"
| "run U num_of num_str (e # es) st = run U num_of num_str es (fst (fire U num_of num_str e st))"

text \<open>The pushes among the effects of a handler.\<close>

fun emitted :: "effect list \<Rightarrow> jsstring list" where
  "emitted [] = []"
| "emitted (Emit p # fx) = p # emitted fx"
| "emitted (_ # fx) = emitted fx"

section \<open>Notions used in the proofs\<close>

text \<open>
  What every state reached from the first render keeps: a socket is bound to the current
  room, and the session code is a normalised code, empty exactly in local mode.
\<close>

definition session_inv :: "'n app_state \<Rightarrow> bool" where
  "session_inv st \<longleftrightarrow>
     socketRef st = Some (roomCode (mode st) (sessionCode st))
     \<and> list_all is_AZ09 (sessionCode st) \<and> length (sessionCode st) \<le> 6
     \<and> (mode st = Local) = (sessionCode st = [])"

text \<open>The tokens of the text that \<open>JSON.stringify\<close> prints for a value without numbers.\<close>

fun json_tokens :: "'n json \<Rightarrow> token list" where
  "json_tokens JNull = [TNull]"
| "json_tokens (JBool b) = [if b then TTrue else TFalse]"
| "json_tokens (JNumber n) = []"
| "json_tokens (JString s) = [TString s]"
| "json_tokens (JArray vs) = TLBrack # join_with TComma (map json_tokens vs) @ [TRBrack]"
| "json_tokens (JObject kvs) =
     TLBrace # join_with TComma (map (\<lambda>kv. TString (fst kv) # TColon # json_tokens (snd kv)) kvs)
       @ [TRBrace]"

text \<open>
  A value is canonical when it contains no number and the properties of each of its
  objects are listed in property order without a repeated key, that is, as defining them
  one after the other leaves them. These are the values the parser can return that do not
  depend on the conversions of numbers.
\<close>

definition put_all :: "(jsstring \<times> 'v) list \<Rightarrow> (jsstring \<times> 'v) list \<Rightarrow> (jsstring \<times> 'v) list" where
  "put_all acc kvs = foldl (\<lambda>a kv. obj_put (fst kv) (snd kv) a) acc kvs"

fun canonical :: "'n json \<Rightarrow> bool" where
  "canonical (JNumber n) = False"
| "canonical (JArray vs) = list_all canonical vs"
| "canonical (JObject kvs) = (put_all [] kvs = kvs \<and> list_all (\<lambda>kv. canonical (snd kv)) kvs)"
| "canonical _ = True"

section \<open>Session codes: shape and idempotence\<close>

lemma is_AZ09_ascii: "is_AZ09 c \<Longrightarrow> c < 0x80"
  unfolding is_AZ09_def by (auto simp: word_le_nat_alt word_less_nat_alt)

lemma is_AZ09_upper: "is_AZ09 c \<Longrightarrow> ascii_upper c = c"
  unfolding is_AZ09_def ascii_upper_def by (auto simp: word_le_nat_alt)

lemma toUpperCase_AZ09: "list_all is_AZ09 s \<Longrightarrow> toUpperCase U s = s"
  by (induction U s rule: toUpperCase.induct) (simp_all add: is_AZ09_ascii is_AZ09_upper)

lemma list_all_take_filter: "list_all P (take n (filter P xs))"
  unfolding list_all_iff by (auto dest: in_set_takeD)

lemma list_all_normalized: "list_all is_AZ09 (normalized U code)"
  unfolding normalized_def slice_0_6_def replace_non_AZ09_def by (rule list_all_take_filter)

lemma length_normalized: "length (normalized U code) \<le> 6"
  by (simp add: normalized_def slice_0_6_def)

lemma manualCode_handleCodeChange:
  "manualCode (handleCodeChange U w s) = normalized U (Some w)"
  by (simp add: handleCodeChange_def normalized_def)

lemma normalized_fixed:
  "list_all is_AZ09 s \<Longrightarrow> length s \<le> 6 \<Longrightarrow> normalized U (Some s) = s"
  by (simp add: normalized_def toUpperCase_AZ09 slice_0_6_def replace_non_AZ09_def list_all_iff)

text \<open>\<open>joinSession\<close> of the minimal variant keeps the punctuation and does not truncate.\<close>

lemma joinSession_keeps_punctuation:
  "joinSession id (js '' d9-kl!mn '') st = st\<lparr>sessionCode0 := js ''D9-KL!MN'', mode0 := Remote\<rparr>"
  by (simp add: joinSession_def trim_def js_def is_js_space_def ascii_upper_def)

text \<open>
  Claim C2, as amended. For every raw code, whatever the Unicode table, the code computed
  by \<open>startRemoteSession\<close> consists of characters \<open>A-Z\<close>, \<open>0-9\<close> only and is the first six
  of the alphanumeric characters of the uppercased input: its length is six when at least
  six of them remain and is their number otherwise. Nothing pads a shorter code, so a
  non-empty code of fewer than six characters is accepted.
\<close>

theorem normalized_shape:
  "length (normalized U code)
     = min 6 (length (filter is_AZ09 (toUpperCase U (case code of None \<Rightarrow> [] | Some s \<Rightarrow> s))))
   \<and> prefix (normalized U code)
        (filter is_AZ09 (toUpperCase U (case code of None \<Rightarrow> [] | Some s \<Rightarrow> s)))
   \<and> list_all is_AZ09 (normalized U code)"
proof (intro conjI)
  show "list_all is_AZ09 (normalized U code)"
    by (rule list_all_normalized)
qed (simp_all add: normalized_def slice_0_6_def replace_non_AZ09_def take_is_prefix min.commute)

theorem normalized_shape_witness:
  "normalized id (Some (js ''d9-kl!mn'')) = js ''D9KLMN''
   \<and> length (normalized id (Some (js ''d9-kl!mn''))) = 6
   \<and> list_all is_AZ09 (normalized id (Some (js ''d9-kl!mn'')))"
  using normalized_shape [of id "Some (js ''d9-kl!mn'')"]
  by (simp add: normalized_def slice_0_6_def replace_non_AZ09_def js_def ascii_upper_def is_AZ09_def)

text \<open>The raw code \<open>ab\<close> is normalised to \<open>AB\<close>, which is neither empty nor six characters
  long.\<close>

theorem normalized_short_counterexample:
  "normalized id (Some (js ''ab'')) = js ''AB'' \<and> js ''AB'' \<noteq> [] \<and> length (js ''AB'') \<noteq> 6"
  by (simp add: normalized_def slice_0_6_def replace_non_AZ09_def js_def ascii_upper_def is_AZ09_def)

text \<open>
  Claim C9. Normalising a normalised code changes nothing, for every raw code and every
  Unicode table; the same holds of the code field, which \<open>handleCodeChange\<close> normalises by
  the same chain.
\<close>

theorem normalized_idempotent:
  "normalized U (Some (normalized U code)) = normalized U code
   \<and> manualCode (handleCodeChange U (manualCode (handleCodeChange U v st)) st')
       = manualCode (handleCodeChange U v st)"
proof -
  have fixed: "normalized U (Some (normalized U c)) = normalized U c" for c
  proof -
    let ?r = "normalized U c"
    have all: "list_all is_AZ09 ?r" by (rule list_all_normalized)
    have "filter is_AZ09 ?r = ?r" using all by (simp add: list_all_iff)
    then show ?thesis
      using length_normalized [of U c]
      by (simp add: normalized_def [of U "Some ?r"] toUpperCase_AZ09 [OF all] slice_0_6_def
            replace_non_AZ09_def)
  qed
  show ?thesis
    unfolding manualCode_handleCodeChange using fixed [of code] fixed [of "Some v"] by simp
qed

section \<open>Attachments: the size limit\<close>

text \<open>
  Claim C8. A selected file of more than \<open>5 * 1024 * 1024\<close> bytes is rejected at once:
  the component state (text and attachments included) is unchanged, no read is started,
  and the only effects are the notice and the reset of the file input.
\<close>

theorem oversize_file_rejected:
  "fsize f > MAX_FILE_SIZE \<Longrightarrow>
     fst (handleFileSelected (Some f) st) = st
     \<and> ReadAsDataURL f \<notin> set (snd (handleFileSelected (Some f) st))
     \<and> snd (handleFileSelected (Some f) st)
         = [Alert (js ''File is too large. Please pick something under 5MB.''), ResetFileInput]"
  by (simp add: handleFileSelected_def)

theorem oversize_file_rejected_witness:
  "fsize \<lparr>fname = js ''a.png'', ftype = js ''image/png'', fsize = 6 * 1024 * 1024\<rparr> > MAX_FILE_SIZE
   \<and> fst (handleFileSelected
        (Some \<lparr>fname = js ''a.png'', ftype = js ''image/png'', fsize = 6 * 1024 * 1024\<rparr>)
        (mounted :: unit app_state)) = mounted
   \<and> snd (handleFileSelected
        (Some \<lparr>fname = js ''a.png'', ftype = js ''image/png'', fsize = 6 * 1024 * 1024\<rparr>)
        (mounted :: unit app_state))
       = [Alert (js ''File is too large. Please pick something under 5MB.''), ResetFileInput]"
  using oversize_file_rejected
    [of "\<lparr>fname = js ''a.png'', ftype = js ''image/png'', fsize = 6 * 1024 * 1024\<rparr>"
        "mounted :: unit app_state"]
  by (simp add: MAX_FILE_SIZE_def)


section \<open>Reachable states\<close>

text \<open>Every state reached from the first render satisfies \<open>session_inv\<close>.\<close>

lemma LOCAL_ROOM_nonempty: "LOCAL_ROOM \<noteq> []"
  by (simp add: LOCAL_ROOM_def js_def)

lemma length_LOCAL_ROOM: "length LOCAL_ROOM = 9"
  by (simp add: LOCAL_ROOM_def js_def)

lemma emitted_append: "emitted (xs @ ys) = emitted xs @ emitted ys"
  by (induction xs rule: emitted.induct) simp_all

lemma emitted_syncPayload:
  "emitted (syncPayload S t a st) = (case socketRef st of None \<Rightarrow> [] | Some _ \<Rightarrow> [update_data_payload S t a])"
  by (simp add: syncPayload_def split: option.splits)

lemma session_inv_mounted: "session_inv mounted"
  by (simp add: session_inv_def mounted_def room_effect_def initial_state_def roomCode_def
        LOCAL_ROOM_nonempty)

lemma on_sync_data_shape:
  "\<exists>T A. on_sync_data parse w st = Inr (st\<lparr>text' := T, attachments := A, hasUnsavedChanges := False\<rparr>)"
  by (cases w)
     (auto simp: on_sync_data_def try_catch_finally_def sync_data_try_def get_property_def Let_def
        split: sum.splits json.splits option.splits prod.splits)

lemma handle_keeps_session:
  assumes "\<forall>c. e \<noteq> CreatedSession c" "e \<noteq> JoinWithCode" "e \<noteq> ResetRemoteSession"
  shows "mode (fst (handle U N S e st)) = mode st
       \<and> sessionCode (fst (handle U N S e st)) = sessionCode st
       \<and> socketRef (fst (handle U N S e st)) = socketRef st"
proof (cases e)
  case (SyncData w)
  obtain T A where "on_sync_data (JSON_parse N) w st = Inr (st\<lparr>text' := T, attachments := A, hasUnsavedChanges := False\<rparr>)"
    using on_sync_data_shape by blast
  with SyncData show ?thesis by (simp add: when_bound_def split: option.splits)
qed (use assms in \<open>auto simp: handleTextChange_def handleSave_def handleClear_def handleFileSelected_def
        reader_onload_def reader_onerror_def handleCodeChange_def when_bound_def save_timer_fired_def
        toggleInfoTab_def openRemoteShortcut_def Let_def
        split: option.splits if_splits\<close>)

lemma roomCode_Remote_neq_LOCAL: "length code \<le> 6 \<Longrightarrow> code \<noteq> LOCAL_ROOM"
  using length_LOCAL_ROOM by auto

lemma startRemoteSession_inv:
  assumes "session_inv st"
  shows "session_inv (fst (fire U N S (CreatedSession c) st))"
    and "session_inv (fst (fire U N S JoinWithCode st))"
  using assms list_all_normalized [of U c] length_normalized [of U c]
    list_all_normalized [of U "Some (manualCode st)"] length_normalized [of U "Some (manualCode st)"]
  by (auto simp: session_inv_def fire_def startRemoteSession_def joinWithCode_def Let_def roomCode_def
        room_cleanup_def room_effect_def LOCAL_ROOM_nonempty split: if_splits)

lemma resetRemoteSession_inv:
  assumes "session_inv st"
  shows "session_inv (fst (fire U N S ResetRemoteSession st))"
  using assms roomCode_Remote_neq_LOCAL [of "sessionCode st"]
  by (auto simp: session_inv_def fire_def resetRemoteSession_def Let_def roomCode_def
        room_cleanup_def room_effect_def LOCAL_ROOM_nonempty split: if_splits option.splits)

lemma fire_session_inv:
  assumes "session_inv st"
  shows "session_inv (fst (fire U N S e st))"
proof -
  consider c where "e = CreatedSession c" | "e = JoinWithCode" | "e = ResetRemoteSession"
    | "(\<forall>c. e \<noteq> CreatedSession c) \<and> e \<noteq> JoinWithCode \<and> e \<noteq> ResetRemoteSession"
    by blast
  then show ?thesis
  proof cases
    case 4
    then have off: "offered e st" by (cases e) simp_all
    from 4 have keep: "mode (fst (handle U N S e st)) = mode st
       \<and> sessionCode (fst (handle U N S e st)) = sessionCode st
       \<and> socketRef (fst (handle U N S e st)) = socketRef st"
      by (intro handle_keeps_session) simp_all
    then have "fst (fire U N S e st) = fst (handle U N S e st)"
      by (cases "handle U N S e st") (auto simp: fire_def off)
    with keep assms show ?thesis by (simp add: session_inv_def)
  qed (use assms startRemoteSession_inv resetRemoteSession_inv in auto)
qed

lemma run_session_inv: "session_inv st \<Longrightarrow> session_inv (run U N S es st)"
  by (induction es arbitrary: st) (simp_all add: fire_session_inv)

lemma run_socket_bound: "socketRef (run U N S es mounted) \<noteq> None"
  using run_session_inv [OF session_inv_mounted, of U N S es] by (simp add: session_inv_def)

text \<open>Typing \<open>d9-kl!mn\<close> into the code field and joining.\<close>

lemma run_join:
  "run id id id [CodeChange (js ''d9-kl!mn''), JoinWithCode] (mounted :: jsstring app_state)
    = mounted\<lparr>mode := Remote, sessionCode := js ''D9KLMN'', manualCode := js ''D9KLMN'',
        infoTab := js ''remote'', status := Connecting, socketRef := Some (js ''D9KLMN'')\<rparr>"
  by (simp add: mounted_def room_effect_def initial_state_def roomCode_def LOCAL_ROOM_def Let_def
        fire_def handleCodeChange_def joinWithCode_def startRemoteSession_def normalized_def
        slice_0_6_def replace_non_AZ09_def trim_def is_js_space_def room_cleanup_def
        js_def ascii_upper_def is_AZ09_def)

section \<open>Room resolution\<close>

text \<open>
  Claim C7, as amended. \<open>roomCode\<close> is a function of the mode and the session code alone. It
  is the local sentinel in local mode, the stored session code in remote mode when there
  is one, and the empty string, which is \<open>null\<close> to the connection effect, in remote mode
  without a code: the effect then sets the status to \<open>waiting\<close>, leaves no socket bound and
  opens none, in both variants of the component. In the attachment variant the stored code
  is the normalised code: after \<open>startRemoteSession\<close> with a raw code whose normal form is
  not empty the room is that normal form, and in every state reached from the first render
  in remote mode there is a code, and it is its own normal form. In the minimal variant
  the stored code is the trimmed, uppercased input after \<open>joinSession\<close> and the code of the
  server as it came after \<open>createRemoteSession\<close>.
\<close>

theorem roomCode_cases:
  "roomCode Local code = LOCAL_ROOM
   \<and> (code \<noteq> [] \<longrightarrow> roomCode Remote code = code)
   \<and> roomCode Remote [] = []
   \<and> (normalized U raw \<noteq> [] \<longrightarrow>
        mode (startRemoteSession U raw st) = Remote
        \<and> roomCode (mode (startRemoteSession U raw st)) (sessionCode (startRemoteSession U raw st))
            = normalized U raw)
   \<and> (mode (run U N S es mounted) = Remote \<longrightarrow>
        sessionCode (run U N S es mounted) \<noteq> []
        \<and> roomCode (mode (run U N S es mounted)) (sessionCode (run U N S es mounted))
            = normalized U' (Some (sessionCode (run U N S es mounted))))
   \<and> (roomCode (mode st) (sessionCode st) = [] \<longrightarrow>
        status (fst (room_effect st)) = Waiting \<and> socketRef (fst (room_effect st)) = None
        \<and> (\<forall>r. SocketOpen r \<notin> set (snd (room_effect st))))
   \<and> (roomCode (mode0 st0) (sessionCode0 st0) = [] \<longrightarrow>
        status0 (fst (room_effect0 st0)) = Waiting \<and> socketRef0 (fst (room_effect0 st0)) = None
        \<and> (\<forall>r. SocketOpen r \<notin> set (snd (room_effect0 st0))))
   \<and> (toUpperCase U (trim typed) \<noteq> [] \<longrightarrow>
        mode0 (joinSession U typed st0) = Remote
        \<and> roomCode (mode0 (joinSession U typed st0)) (sessionCode0 (joinSession U typed st0))
            = toUpperCase U (trim typed))
   \<and> mode0 (createRemoteSession0 issued st0) = Remote
   \<and> roomCode (mode0 (createRemoteSession0 issued st0)) (sessionCode0 (createRemoteSession0 issued st0))
       = issued"
proof -
  have inv: "session_inv (run U N S es mounted)"
    by (rule run_session_inv [OF session_inv_mounted])
  have reach: "mode (run U N S es mounted) = Remote \<longrightarrow>
        sessionCode (run U N S es mounted) \<noteq> []
        \<and> roomCode (mode (run U N S es mounted)) (sessionCode (run U N S es mounted))
            = normalized U' (Some (sessionCode (run U N S es mounted)))"
    using inv by (auto simp: session_inv_def roomCode_def normalized_fixed)
  have rest: "roomCode Local code = LOCAL_ROOM
   \<and> (code \<noteq> [] \<longrightarrow> roomCode Remote code = code)
   \<and> roomCode Remote [] = []
   \<and> (normalized U raw \<noteq> [] \<longrightarrow>
        mode (startRemoteSession U raw st) = Remote
        \<and> roomCode (mode (startRemoteSession U raw st)) (sessionCode (startRemoteSession U raw st))
            = normalized U raw)
   \<and> (roomCode (mode st) (sessionCode st) = [] \<longrightarrow>
        status (fst (room_effect st)) = Waiting \<and> socketRef (fst (room_effect st)) = None
        \<and> (\<forall>r. SocketOpen r \<notin> set (snd (room_effect st))))
   \<and> (roomCode (mode0 st0) (sessionCode0 st0) = [] \<longrightarrow>
        status0 (fst (room_effect0 st0)) = Waiting \<and> socketRef0 (fst (room_effect0 st0)) = None
        \<and> (\<forall>r. SocketOpen r \<notin> set (snd (room_effect0 st0))))"
    by (auto simp: roomCode_def startRemoteSession_def Let_def room_effect_def room_effect0_def
        split: option.splits)
  have minimal: "(toUpperCase U (trim typed) \<noteq> [] \<longrightarrow>
        mode0 (joinSession U typed st0) = Remote
        \<and> roomCode (mode0 (joinSession U typed st0)) (sessionCode0 (joinSession U typed st0))
            = toUpperCase U (trim typed))
   \<and> mode0 (createRemoteSession0 issued st0) = Remote
   \<and> roomCode (mode0 (createRemoteSession0 issued st0)) (sessionCode0 (createRemoteSession0 issued st0))
       = issued"
    by (simp add: joinSession_def createRemoteSession0_def roomCode_def Let_def)
  from reach rest minimal show ?thesis by blast
qed

theorem roomCode_cases_witness:
  "roomCode Local (js ''D9KLMN'') = LOCAL_ROOM
   \<and> roomCode Remote (js ''D9KLMN'') = js ''D9KLMN''
   \<and> roomCode Remote [] = []
   \<and> normalized id (Some (js ''d9-kl!mn'')) = js ''D9KLMN''
   \<and> roomCode (mode (startRemoteSession id (Some (js ''d9-kl!mn'')) (mounted :: jsstring app_state)))
        (sessionCode (startRemoteSession id (Some (js ''d9-kl!mn'')) (mounted :: jsstring app_state)))
       = js ''D9KLMN''
   \<and> mode (run id id id [CodeChange (js ''d9-kl!mn''), JoinWithCode] mounted) = Remote
   \<and> roomCode (mode (run id id id [CodeChange (js ''d9-kl!mn''), JoinWithCode] mounted))
        (sessionCode (run id id id [CodeChange (js ''d9-kl!mn''), JoinWithCode] mounted))
       = js ''D9KLMN''
   \<and> roomCode (mode0 (mounted0\<lparr>mode0 := Remote\<rparr>)) (sessionCode0 (mounted0\<lparr>mode0 := Remote\<rparr>)) = []
   \<and> status0 (fst (room_effect0 (mounted0\<lparr>mode0 := Remote\<rparr>))) = Waiting
   \<and> socketRef0 (fst (room_effect0 (mounted0\<lparr>mode0 := Remote\<rparr>))) = None
   \<and> snd (room_effect0 (mounted0\<lparr>mode0 := Remote\<rparr>)) = [SocketDisconnect]
   \<and> toUpperCase id (trim (js '' d9-kl!mn '')) = js ''D9-KL!MN''
   \<and> roomCode (mode0 (joinSession id (js '' d9-kl!mn '') (mounted0\<lparr>mode0 := Remote\<rparr>)))
        (sessionCode0 (joinSession id (js '' d9-kl!mn '') (mounted0\<lparr>mode0 := Remote\<rparr>)))
       = js ''D9-KL!MN''
   \<and> roomCode (mode0 (createRemoteSession0 (js ''k7q2xz'') (mounted0\<lparr>mode0 := Remote\<rparr>)))
        (sessionCode0 (createRemoteSession0 (js ''k7q2xz'') (mounted0\<lparr>mode0 := Remote\<rparr>)))
       = js ''k7q2xz''"
  using roomCode_cases [where code = "js ''D9KLMN''" and U = id and raw = "Some (js ''d9-kl!mn'')"
      and st = "mounted :: jsstring app_state" and N = id and S = id
      and es = "[CodeChange (js ''d9-kl!mn''), JoinWithCode]" and U' = id
      and ?st0.0 = "mounted0\<lparr>mode0 := Remote\<rparr>" and typed = "js '' d9-kl!mn ''"
      and issued = "js ''k7q2xz''"]
  unfolding run_join
  by (simp add: roomCode_def startRemoteSession_def normalized_def slice_0_6_def
        replace_non_AZ09_def js_def ascii_upper_def is_AZ09_def mounted0_def room_effect0_def
        initial_state0_def mounted_def room_effect_def initial_state_def LOCAL_ROOM_def Let_def
        joinSession_def createRemoteSession0_def trim_def is_js_space_def)

text \<open>
  In the minimal variant, joining with the typed code \<open>d9-kl!mn\<close> puts the component in
  remote mode with the code \<open>D9-KL!MN\<close>. The room is that code, the effect opens a socket
  for it, and it is not a normalised code: it has eight characters, two of them outside
  \<open>A-Z\<close> and \<open>0-9\<close>, and its normal form is \<open>D9KLMN\<close>.
\<close>

theorem roomCode_raw_code_counterexample:
  "mode0 (joinSession id (js ''d9-kl!mn'') mounted0) = Remote
   \<and> sessionCode0 (joinSession id (js ''d9-kl!mn'') mounted0) = js ''D9-KL!MN''
   \<and> roomCode (mode0 (joinSession id (js ''d9-kl!mn'') mounted0))
        (sessionCode0 (joinSession id (js ''d9-kl!mn'') mounted0)) = js ''D9-KL!MN''
   \<and> snd (room_effect0 (joinSession id (js ''d9-kl!mn'') mounted0)) = [SocketOpen (js ''D9-KL!MN'')]
   \<and> length (js ''D9-KL!MN'') = 8
   \<and> \<not> list_all is_AZ09 (js ''D9-KL!MN'')
   \<and> normalized id (Some (js ''D9-KL!MN'')) = js ''D9KLMN''"
  by (simp add: joinSession_def trim_def is_js_space_def js_def ascii_upper_def is_AZ09_def
        roomCode_def mounted0_def room_effect0_def initial_state0_def LOCAL_ROOM_def Let_def
        normalized_def slice_0_6_def replace_non_AZ09_def)

section \<open>Outbound pushes\<close>

lemma empty_payload:
  "update_data_payload S [] [] = js ''{'' @ [0x22] @ js ''text'' @ [0x22] @ js '':'' @ [0x22, 0x22]
      @ js '','' @ [0x22] @ js ''attachments'' @ [0x22] @ js '':[]}''"
  by (simp add: update_data_payload_def QuoteJSONString_def js_def is_high_surrogate_def
        is_low_surrogate_def quote_unit_def)



text \<open>
  Claim C3, as amended. Whatever the state, save, clear and the per-edit push of the
  minimal variant push on the channel only while a socket is bound; save pushes only
  while the status is \<open>connected\<close> as well.
\<close>

theorem push_needs_socket:
  "(emitted (snd (handleSave S st)) \<noteq> [] \<longrightarrow> status st = Connected \<and> socketRef st \<noteq> None)
   \<and> (emitted (snd (handleClear S st)) \<noteq> [] \<longrightarrow> socketRef st \<noteq> None)
   \<and> (emitted (snd (handleTextChange0 v st0)) \<noteq> [] \<longrightarrow> socketRef0 st0 \<noteq> None)"
  by (auto simp: handleSave_def handleClear_def handleTextChange0_def syncPayload0_def
        emitted_append emitted_syncPayload split: option.splits if_splits)

theorem push_needs_socket_witness:
  "emitted (snd (handleSave id (run id id id [SocketConnect, TextChange (js ''hi'')] mounted))) \<noteq> []
   \<and> status (run id id id [SocketConnect, TextChange (js ''hi'')] mounted) = Connected
   \<and> socketRef (run id id id [SocketConnect, TextChange (js ''hi'')] mounted) = Some LOCAL_ROOM
   \<and> emitted (snd (handleClear id (run id id id [SocketConnect, TextChange (js ''hi'')] mounted))) \<noteq> []
   \<and> emitted (snd (handleTextChange0 (js ''x'') mounted0)) \<noteq> []
   \<and> socketRef0 mounted0 = Some LOCAL_ROOM"
  using push_needs_socket [of id "run id id id [SocketConnect, TextChange (js ''hi'')] mounted" "js ''x''" mounted0]
  by (simp add: mounted0_def room_effect0_def initial_state0_def roomCode_def LOCAL_ROOM_nonempty
        handleTextChange0_def syncPayload0_def mounted_def room_effect_def initial_state_def
        fire_def when_bound_def handleTextChange_def handleClear_def handleSave_def syncPayload_def
        js_def)

text \<open>
  Right after the first render the status is \<open>connecting\<close> and a socket is bound. There
  an edit in the minimal variant is pushed, and in the attachment variant clearing a
  document that is not empty pushes the empty payload.
\<close>

theorem push_while_connecting_counterexample:
  "status0 mounted0 = Connecting
   \<and> emitted (snd (handleTextChange0 (js ''x'') mounted0)) = [js ''x'']
   \<and> status (run id id id [TextChange (js ''x'')] mounted) = Connecting
   \<and> emitted (snd (fire id id id Clear (run id id id [TextChange (js ''x'')] mounted)))
       = [update_data_payload id [] []]"
  by (simp add: mounted0_def room_effect0_def initial_state0_def roomCode_def LOCAL_ROOM_nonempty
        handleTextChange0_def syncPayload0_def mounted_def room_effect_def initial_state_def
        fire_def handleTextChange_def handleClear_def syncPayload_def js_def)



text \<open>
  Claim C6, as amended. In every state reached from the first render, \<open>handleClear\<close>
  leaves the text and the attachments empty; when the document was not empty already it
  pushes the payload of the empty document exactly once and clears the unsaved flag,
  whatever the status and the unsaved flag were; when the document was empty already it
  does nothing.
\<close>

theorem clear_resets_and_pushes:
  "let st = run U N S es mounted; r = handleClear S st in
     text' (fst r) = [] \<and> attachments (fst r) = []
     \<and> (if text' st = [] \<and> attachments st = [] then r = (st, [])
        else emitted (snd r) = [update_data_payload S [] []] \<and> \<not> hasUnsavedChanges (fst r))"
  using run_socket_bound [of U N S es]
  by (auto simp: Let_def handleClear_def emitted_syncPayload)

theorem clear_resets_and_pushes_witness:
  "text' (run id id id [TextChange (js ''hi'')] mounted) = js ''hi''
   \<and> status (run id id id [TextChange (js ''hi'')] mounted) = Connecting
   \<and> hasUnsavedChanges (run id id id [TextChange (js ''hi'')] mounted)
   \<and> text' (fst (handleClear id (run id id id [TextChange (js ''hi'')] mounted))) = []
   \<and> emitted (snd (handleClear id (run id id id [TextChange (js ''hi'')] mounted)))
       = [update_data_payload id [] []]"
  using clear_resets_and_pushes [of id id id "[TextChange (js ''hi'')]"]
  by (simp add: Let_def mounted_def room_effect_def initial_state_def roomCode_def LOCAL_ROOM_nonempty
        fire_def handleTextChange_def handleClear_def syncPayload_def js_def)

text \<open>Right after the first render the document is empty, and clearing it pushes nothing.\<close>

theorem clear_empty_no_push_counterexample:
  "handleClear id (mounted :: jsstring app_state) = (mounted, [])
   \<and> emitted (snd (handleClear id (mounted :: jsstring app_state))) = []"
  by (simp add: handleClear_def mounted_def room_effect_def initial_state_def roomCode_def LOCAL_ROOM_nonempty)

text \<open>
  Claim C10. When the text is the empty string and there are no attachments,
  \<open>handleClear\<close> returns the state as it was and has no effect: nothing is pushed.
\<close>

theorem clear_empty_noop:
  "text' st = [] \<Longrightarrow> attachments st = [] \<Longrightarrow> handleClear S st = (st, [])"
  by (simp add: handleClear_def)

theorem clear_empty_noop_witness:
  "text' (mounted :: unit app_state) = [] \<and> attachments (mounted :: unit app_state) = []
   \<and> handleClear (\<lambda>u. []) (mounted :: unit app_state) = (mounted, [])"
  using clear_empty_noop [of "mounted :: unit app_state" "\<lambda>u. []"]
  by (simp add: mounted_def room_effect_def initial_state_def roomCode_def LOCAL_ROOM_nonempty)

section \<open>Inbound payloads\<close>

text \<open>
  Claim C1. For every string payload and whatever \<open>JSON.parse\<close> does with it, the
  \<open>sync-data\<close> handler completes without throwing and leaves the unsaved flag false. When
  parsing throws, the whole payload becomes the text and there are no attachments. When
  the payload does not parse to an object, the text is the whole payload (for \<open>null\<close>) or
  empty, and there are no attachments. When it parses to an object, which is the
  structured form, the text is its property \<open>text\<close> if that is a string and empty
  otherwise, and the attachments are its property \<open>attachments\<close> if that is an array and
  none otherwise. The handler of the minimal variant takes every string payload as the
  text.
\<close>

theorem sync_data_never_throws:
  "\<exists>st'. on_sync_data parse (Str p) st = Inr st'
     \<and> \<not> hasUnsavedChanges st'
     \<and> (isl (parse p) \<longrightarrow> text' st' = p \<and> attachments st' = [])
     \<and> ((\<forall>kvs. parse p \<noteq> Inr (JObject kvs)) \<longrightarrow>
          (text' st' = p \<or> text' st' = []) \<and> attachments st' = [])
     \<and> (\<forall>kvs. parse p = Inr (JObject kvs) \<longrightarrow>
          text' st' = (case map_of kvs (js ''text'') of Some (JString x) \<Rightarrow> x | _ \<Rightarrow> [])
          \<and> attachments st'
              = (case map_of kvs (js ''attachments'') of Some (JArray xs) \<Rightarrow> xs | _ \<Rightarrow> []))
     \<and> on_sync_data0 p st0 = Inr (st0\<lparr>text0 := p\<rparr>)"
  by (auto simp: on_sync_data_def on_sync_data0_def try_catch_finally_def sync_data_try_def
        get_property_def Let_def
        split: sum.splits json.splits option.splits prod.splits)

lemma JSON_parse_not_json: "JSON_parse N (js ''not json'') = Inl SyntaxError"
  by (simp add: JSON_parse_def js_def is_json_ws_def is_digit_def)

lemma JSON_parse_empty: "JSON_parse N [] = Inl SyntaxError"
  by (simp add: JSON_parse_def)

lemma JSON_parse_truncated: "JSON_parse N truncated_payload = Inl SyntaxError"
  by (simp add: truncated_payload_def JSON_parse_def js_def is_json_ws_def is_digit_def consumed_def)

theorem sync_data_never_throws_witness:
  "isl (JSON_parse id (js ''not json''))
   \<and> on_sync_data (JSON_parse id) (Str (js ''not json'')) (mounted :: jsstring app_state)
       = Inr (mounted\<lparr>text' := js ''not json''\<rparr>)
   \<and> on_sync_data (JSON_parse id) (Str []) (mounted :: jsstring app_state) = Inr mounted
   \<and> on_sync_data (JSON_parse id) (Str truncated_payload) (mounted :: jsstring app_state)
       = Inr (mounted\<lparr>text' := truncated_payload\<rparr>)
   \<and> on_sync_data0 (js ''not json'') mounted0 = Inr (mounted0\<lparr>text0 := js ''not json''\<rparr>)"
  using sync_data_never_throws [of "JSON_parse id" "js ''not json''" "mounted :: jsstring app_state" mounted0]
  by (simp add: JSON_parse_not_json JSON_parse_empty JSON_parse_truncated on_sync_data_def
        on_sync_data0_def try_catch_finally_def sync_data_try_def mounted_def room_effect_def
        initial_state_def roomCode_def LOCAL_ROOM_nonempty)

section \<open>Printing a value and parsing it back\<close>

text \<open>The string literal that \<open>QuoteJSONString\<close> prints is read back as the string.\<close>

lemma nibbles:
  "((n div 4096 * 16 + n div 256 mod 16) * 16 + n div 16 mod 16) * 16 + n mod 16 = (n::nat)"
proof -
  have d: "n div 4096 = n div 256 div 16" "n div 256 = n div 16 div 16"
    by (simp_all add: div_mult2_eq)
  have "n div 256 div 16 * 16 + n div 256 mod 16 = n div 256" by (rule div_mult_mod_eq)
  moreover have "n div 16 div 16 * 16 + n div 16 mod 16 = n div 16" by (rule div_mult_mod_eq)
  moreover have "n div 16 * 16 + n mod 16 = n" by (rule div_mult_mod_eq)
  ultimately show ?thesis unfolding d(1) by (simp add: d(2) [symmetric])
qed

lemma lt16: "(d::nat) < 16 \<Longrightarrow> d = 0 \<or> d = 1 \<or> d = 2 \<or> d = 3 \<or> d = 4 \<or> d = 5 \<or> d = 6 \<or> d = 7 \<or> d = 8 \<or> d = 9
   \<or> d = 10 \<or> d = 11 \<or> d = 12 \<or> d = 13 \<or> d = 14 \<or> d = 15"
  by arith

lemma hex_value_hex_digit: "d < 16 \<Longrightarrow> hex_value (hex_digit d) = Some d"
  by (drule lt16) (elim disjE; simp add: hex_value_def hex_digit_def)

lemma hex4_unicode_digits:
  "hex4 (hex_digit (unat c div 4096)) (hex_digit (unat c div 256 mod 16))
        (hex_digit (unat c div 16 mod 16)) (hex_digit (unat c mod 16)) = Some (c :: jschar)"
proof -
  have lt: "unat c < 65536" using unsigned_less [of c, where 'a = nat] by simp
  then have d3: "hex_value (hex_digit (unat c div 4096)) = Some (unat c div 4096)"
    by (intro hex_value_hex_digit) simp
  have d2: "hex_value (hex_digit (unat c div 256 mod 16)) = Some (unat c div 256 mod 16)"
    and d1: "hex_value (hex_digit (unat c div 16 mod 16)) = Some (unat c div 16 mod 16)"
    and d0: "hex_value (hex_digit (unat c mod 16)) = Some (unat c mod 16)"
    by (intro hex_value_hex_digit; simp)+
  have "hex4 (hex_digit (unat c div 4096)) (hex_digit (unat c div 256 mod 16))
        (hex_digit (unat c div 16 mod 16)) (hex_digit (unat c mod 16))
      = Some (of_nat (((unat c div 4096 * 16 + unat c div 256 mod 16) * 16 + unat c div 16 mod 16) * 16
           + unat c mod 16))"
    by (simp only: hex4_def d3 d2 d1 d0 prod.case option.case)
  also have "\<dots> = Some (of_nat (unat c))" by (simp only: nibbles)
  also have "\<dots> = Some c" by simp
  finally show ?thesis .
qed

lemma surrogate_raw:
  "is_high_surrogate c \<or> is_low_surrogate c \<Longrightarrow> c \<noteq> 0x22 \<and> c \<noteq> 0x5C \<and> \<not> c < 0x20"
  by (auto simp: is_high_surrogate_def is_low_surrogate_def word_le_nat_alt word_less_nat_alt)

lemma lex_string_raw:
  "c \<noteq> 0x22 \<Longrightarrow> c \<noteq> 0x5C \<Longrightarrow> \<not> c < 0x20 \<Longrightarrow> lex_string (c # r) = consumed c (lex_string r)"
  by simp

lemma lex_string_escape:
  "e \<noteq> 0x75 \<Longrightarrow> unescape e = Some u \<Longrightarrow> lex_string (0x5C # e # r) = consumed u (lex_string r)"
  by simp

lemma lex_string_unicode:
  "hex4 a b c d = Some u \<Longrightarrow> lex_string (0x5C # 0x75 # a # b # c # d # r) = consumed u (lex_string r)"
  by simp


lemma lex_string_quote_unit: "lex_string (quote_unit c @ r) = consumed c (lex_string r)"
proof -
  consider "c = 0x08" | "c = 0x09" | "c = 0x0A" | "c = 0x0C" | "c = 0x0D" | "c = 0x22" | "c = 0x5C"
    | "c \<notin> {0x08, 0x09, 0x0A, 0x0C, 0x0D, 0x22, 0x5C}" "c < 0x20 \<or> is_high_surrogate c \<or> is_low_surrogate c"
    | "c \<notin> {0x08, 0x09, 0x0A, 0x0C, 0x0D, 0x22, 0x5C}" "\<not> (c < 0x20 \<or> is_high_surrogate c \<or> is_low_surrogate c)"
    by blast
  then show ?thesis
  proof cases
    case 8
    then have "quote_unit c = unicode_escape c" by (simp add: quote_unit_def)
    then show ?thesis
      by (simp add: unicode_escape_def lex_string_unicode [OF hex4_unicode_digits] del: lex_string.simps)
  next
    case 9
    then have "quote_unit c = [c]" by (simp add: quote_unit_def)
    with 9 show ?thesis by (simp add: lex_string_raw del: lex_string.simps)
  qed (simp_all add: quote_unit_def unescape_def)
qed

lemma lex_string_quote_units: "lex_string (quote_units s @ 0x22 # rest) = Some (s, rest)"
proof (induction s rule: quote_units.induct)
  case 1
  show ?case by simp
next
  case (2 c)
  have "lex_string (0x22 # rest) = Some ([], rest)" by simp
  then show ?case
    by (simp add: lex_string_quote_unit consumed_def del: lex_string.simps)
next
  case (3 c d ds)
  show ?case
  proof (cases "is_high_surrogate c \<and> is_low_surrogate d")
    case True
    then have c: "c \<noteq> 0x22 \<and> c \<noteq> 0x5C \<and> \<not> c < 0x20" and d: "d \<noteq> 0x22 \<and> d \<noteq> 0x5C \<and> \<not> d < 0x20"
      using surrogate_raw [of c] surrogate_raw [of d] by blast+
    have "lex_string (c # d # quote_units ds @ 0x22 # rest)
        = consumed c (consumed d (lex_string (quote_units ds @ 0x22 # rest)))"
      using c d by (simp add: lex_string_raw del: lex_string.simps)
    moreover have "lex_string (quote_units ds @ 0x22 # rest) = Some (ds, rest)"
      using True 3 by blast
    moreover have "quote_units (c # d # ds) = c # d # quote_units ds"
      using True by simp
    ultimately show ?thesis
      by (simp add: consumed_def del: lex_string.simps quote_units.simps)
  next
    case False
    then have "quote_units (c # d # ds) = quote_unit c @ quote_units (d # ds)"
      by auto
    moreover have "lex_string (quote_units (d # ds) @ 0x22 # rest) = Some (d # ds, rest)"
      using False 3 by blast
    ultimately show ?thesis
      by (simp add: lex_string_quote_unit consumed_def del: lex_string.simps quote_units.simps)
  qed
qed

lemma tokenize_string:
  "tokenize (QuoteJSONString s @ rest) = map_option ((#) (TString s)) (tokenize rest)"
  by (simp add: QuoteJSONString_def is_json_ws_def lex_string_quote_units del: lex_string.simps)

lemma tokenize_punct:
  "tokenize (0x7B # s) = map_option ((#) TLBrace) (tokenize s)"
  "tokenize (0x7D # s) = map_option ((#) TRBrace) (tokenize s)"
  "tokenize (0x5B # s) = map_option ((#) TLBrack) (tokenize s)"
  "tokenize (0x5D # s) = map_option ((#) TRBrack) (tokenize s)"
  "tokenize (0x3A # s) = map_option ((#) TColon) (tokenize s)"
  "tokenize (0x2C # s) = map_option ((#) TComma) (tokenize s)"
  by (simp_all add: is_json_ws_def)

lemma tokenize_literal:
  "tokenize (js ''null'' @ s) = map_option ((#) TNull) (tokenize s)"
  "tokenize (js ''true'' @ s) = map_option ((#) TTrue) (tokenize s)"
  "tokenize (js ''false'' @ s) = map_option ((#) TFalse) (tokenize s)"
  by (simp_all add: js_def is_json_ws_def is_digit_def)

lemma map_option_append:
  "map_option ((@) xs) (map_option ((@) ys) r) = map_option ((@) (xs @ ys)) r"
  "map_option ((@) xs) (map_option ((#) y) r) = map_option ((@) (xs @ [y])) r"
  "map_option ((#) x) (map_option ((@) ys) r) = map_option ((@) (x # ys)) r"
  by (cases r; simp)+

lemma tokenize_join:
  assumes "\<And>x r. x \<in> set xs \<Longrightarrow> tokenize (f x @ r) = map_option ((@) (g x)) (tokenize r)"
  shows "tokenize (join_with 0x2C (map f xs) @ r)
           = map_option ((@) (join_with TComma (map g xs))) (tokenize r)"
  using assms
proof (induction xs)
  case Nil
  show ?case by (cases "tokenize r") simp_all
next
  case (Cons x xs)
  show ?case
  proof (cases xs)
    case Nil
    with Cons.prems show ?thesis by simp
  next
    case (Cons y ys)
    have "tokenize (join_with 0x2C (map f (x # xs)) @ r)
        = tokenize (f x @ 0x2C # join_with 0x2C (map f xs) @ r)"
      using Cons by simp
    also have "\<dots> = map_option ((@) (g x)) (map_option ((#) TComma)
        (map_option ((@) (join_with TComma (map g xs))) (tokenize r)))"
      using Cons.prems Cons.IH by (simp add: tokenize_punct del: tokenize.simps)
    also have "\<dots> = map_option ((@) (join_with TComma (map g (x # xs)))) (tokenize r)"
      using Cons by (cases "tokenize r") simp_all
    finally show ?thesis .
  qed
qed

lemma tokenize_stringify:
  "canonical v \<Longrightarrow> tokenize (JSON_stringify S v @ r) = map_option ((@) (json_tokens v)) (tokenize r)"
proof (induction v arbitrary: r)
  case JNull
  show ?case by (cases "tokenize r") (simp_all add: tokenize_literal del: tokenize.simps)
next
  case (JBool b)
  show ?case by (cases "tokenize r") (simp_all add: tokenize_literal del: tokenize.simps)
next
  case (JNumber n)
  then show ?case by simp
next
  case (JString s)
  show ?case by (cases "tokenize r") (simp_all add: tokenize_string del: tokenize.simps)
next
  case (JArray vs)
  have "tokenize (join_with 0x2C (map (JSON_stringify S) vs) @ 0x5D # r)
      = map_option ((@) (join_with TComma (map json_tokens vs))) (tokenize (0x5D # r))"
    using JArray by (intro tokenize_join) (simp add: list_all_iff)
  then show ?case
    by (cases "tokenize r") (simp_all add: tokenize_punct del: tokenize.simps)
next
  case (JObject kvs)
  have member: "tokenize ((QuoteJSONString (fst kv) @ 0x3A # JSON_stringify S (snd kv)) @ q)
      = map_option ((@) (TString (fst kv) # TColon # json_tokens (snd kv))) (tokenize q)"
    if "kv \<in> set kvs" for kv q
  proof -
    have "canonical (snd kv)" using JObject.prems that by (simp add: list_all_iff)
    moreover have "snd kv \<in> Basic_BNFs.snds kv" by (cases kv) simp
    ultimately have "tokenize (JSON_stringify S (snd kv) @ q)
        = map_option ((@) (json_tokens (snd kv))) (tokenize q)"
      using JObject.IH that by blast
    then show ?thesis
      by (cases "tokenize q") (simp_all add: tokenize_string tokenize_punct del: tokenize.simps)
  qed
  have "tokenize (join_with 0x2C
          (map (\<lambda>kv. QuoteJSONString (fst kv) @ 0x3A # JSON_stringify S (snd kv)) kvs) @ 0x7D # r)
      = map_option ((@) (join_with TComma
          (map (\<lambda>kv. TString (fst kv) # TColon # json_tokens (snd kv)) kvs))) (tokenize (0x7D # r))"
    by (intro tokenize_join member)
  then show ?case
    by (cases "tokenize r") (simp_all add: tokenize_punct del: tokenize.simps)
qed

lemma join_with_Cons: "join_with sep (x # xs) = x @ concat (map ((#) sep) xs)"
  by (induction xs arbitrary: x) simp_all

lemma json_tokens_head:
  "canonical v \<Longrightarrow> \<exists>t ts. json_tokens v = t # ts \<and> t \<noteq> TRBrack \<and> t \<noteq> TRBrace"
  by (cases v) auto

lemma parse_elements:
  assumes "\<And>v st r. v \<in> set (x # xs) \<Longrightarrow> parse_value N st (json_tokens v @ r) = parse_after N v st r"
  shows "parse_value N (FArray acc # st)
           (json_tokens x @ concat (map (\<lambda>v. TComma # json_tokens v) xs) @ TRBrack # r)
         = parse_after N (JArray (rev acc @ x # xs)) st r"
  using assms
proof (induction xs arbitrary: x acc)
  case Nil
  then show ?case by simp
next
  case (Cons y ys)
  have "parse_value N (FArray acc # st)
          (json_tokens x @ concat (map (\<lambda>v. TComma # json_tokens v) (y # ys)) @ TRBrack # r)
      = parse_value N (FArray (x # acc) # st)
          (json_tokens y @ concat (map (\<lambda>v. TComma # json_tokens v) ys) @ TRBrack # r)"
    using Cons.prems [of x] by simp
  also have "\<dots> = parse_after N (JArray (rev (x # acc) @ y # ys)) st r"
    using Cons.prems by (intro Cons.IH) simp
  finally show ?case by simp
qed

lemma parse_members:
  assumes "\<And>kv st r. kv \<in> set ((k, v) # kvs) \<Longrightarrow>
             parse_value N st (json_tokens (snd kv) @ r) = parse_after N (snd kv) st r"
  shows "parse_value N (FObject acc k # st)
           (json_tokens v
              @ concat (map (\<lambda>kv. TComma # TString (fst kv) # TColon # json_tokens (snd kv)) kvs)
              @ TRBrace # r)
         = parse_after N (JObject (put_all acc ((k, v) # kvs))) st r"
  using assms
proof (induction kvs arbitrary: k v acc)
  case Nil
  from Nil [of "(k, v)"] show ?case by (simp add: put_all_def)
next
  case (Cons kv' kvs)
  obtain k' v' where kv': "kv' = (k', v')" by (cases kv')
  have "parse_value N (FObject acc k # st)
          (json_tokens v
             @ concat (map (\<lambda>kv. TComma # TString (fst kv) # TColon # json_tokens (snd kv)) (kv' # kvs))
             @ TRBrace # r)
      = parse_value N (FObject (obj_put k v acc) k' # st)
          (json_tokens v'
             @ concat (map (\<lambda>kv. TComma # TString (fst kv) # TColon # json_tokens (snd kv)) kvs)
             @ TRBrace # r)"
    using Cons.prems [of "(k, v)"] by (simp add: kv')
  also have "\<dots> = parse_after N (JObject (put_all (obj_put k v acc) ((k', v') # kvs))) st r"
    using Cons.prems by (intro Cons.IH) (auto simp: kv')
  finally show ?case by (simp add: put_all_def kv')
qed

lemma parse_tokens:
  "canonical v \<Longrightarrow> parse_value N st (json_tokens v @ r) = parse_after N v st r"
proof (induction v arbitrary: st r)
  case (JArray vs)
  show ?case
  proof (cases vs)
    case Nil
    then show ?thesis by simp
  next
    case (Cons x xs)
    have elems: "parse_value N st' (json_tokens w @ q) = parse_after N w st' q"
      if "w \<in> set (x # xs)" for w st' q
    proof -
      have "w \<in> set vs" using that Cons by simp
      moreover have "canonical w" using \<open>w \<in> set vs\<close> JArray.prems by (simp add: list_all_iff)
      ultimately show ?thesis using JArray.IH by blast
    qed
    obtain t ts where head: "json_tokens x = t # ts" "t \<noteq> TRBrack"
      using json_tokens_head [of x] JArray.prems Cons by auto
    have "parse_value N st (json_tokens (JArray vs) @ r)
        = parse_value N (FArray [] # st)
            (json_tokens x @ concat (map (\<lambda>v. TComma # json_tokens v) xs) @ TRBrack # r)"
      using head by (cases t) (simp_all add: Cons join_with_Cons o_def)
    also have "\<dots> = parse_after N (JArray (rev [] @ x # xs)) st r"
      by (intro parse_elements elems)
    finally show ?thesis by (simp add: Cons)
  qed
next
  case (JObject kvs)
  show ?case
  proof (cases kvs)
    case Nil
    then show ?thesis by simp
  next
    case (Cons kv kvs')
    obtain k v where kv: "kv = (k, v)" by (cases kv)
    have members: "parse_value N st' (json_tokens (snd m) @ q) = parse_after N (snd m) st' q"
      if "m \<in> set ((k, v) # kvs')" for m st' q
    proof -
      have "m \<in> set kvs" using that Cons kv by simp
      moreover have "snd m \<in> Basic_BNFs.snds m" by (cases m) simp
      moreover have "canonical (snd m)" using \<open>m \<in> set kvs\<close> JObject.prems by (simp add: list_all_iff)
      ultimately show ?thesis using JObject.IH by blast
    qed
    have "parse_value N st (json_tokens (JObject kvs) @ r)
        = parse_value N (FObject [] k # st)
            (json_tokens v
               @ concat (map (\<lambda>kv. TComma # TString (fst kv) # TColon # json_tokens (snd kv)) kvs')
               @ TRBrace # r)"
      by (simp add: Cons kv join_with_Cons o_def)
    also have "\<dots> = parse_after N (JObject (put_all [] ((k, v) # kvs'))) st r"
      by (intro parse_members members)
    finally show ?thesis using JObject.prems by (simp add: Cons kv)
  qed
qed simp_all

lemma JSON_parse_stringify: "canonical v \<Longrightarrow> JSON_parse N (JSON_stringify S v) = Inr v"
  using tokenize_stringify [of v S "[]"] parse_tokens [of v N "[]" "[]"]
  by (simp add: JSON_parse_def)

section \<open>The round trip of a document\<close>

text \<open>The document object and the attachment objects are canonical: their keys are
  distinct and none is an array index.\<close>

lemma array_index_letter: "\<not> is_digit c \<Longrightarrow> array_index (c # cs) = None"
  by (auto simp: array_index_def Let_def is_digit_def)

lemma canonical_attachment_object: "canonical (attachment_object a)"
  by (simp add: attachment_object_def put_all_def obj_put_def js_def array_index_letter is_digit_def)

lemma canonical_document:
  "list_all canonical atts \<Longrightarrow>
     canonical (JObject [(js ''text'', JString t), (js ''attachments'', JArray atts)])"
  by (simp add: put_all_def obj_put_def js_def array_index_letter is_digit_def)

lemma canonical_round_trip:
  assumes "list_all canonical atts"
  shows "on_sync_data (JSON_parse N) (Str (update_data_payload S t atts)) st
           = Inr (st\<lparr>text' := t, attachments := atts, hasUnsavedChanges := False\<rparr>)"
proof -
  have "JSON_parse N (update_data_payload S t atts)
      = Inr (JObject [(js ''text'', JString t), (js ''attachments'', JArray atts)])"
    unfolding update_data_payload_def
    by (rule JSON_parse_stringify) (rule canonical_document [OF assms])
  then show ?thesis
    by (simp add: on_sync_data_def try_catch_finally_def sync_data_try_def get_property_def js_def)
qed

text \<open>
  Claim C5. For every text and every list of attachments \<open>{id, name, type, dataUrl}\<close>, the
  payload that \<open>syncPayload\<close> sends, delivered to the \<open>sync-data\<close> handler in any state,
  leaves exactly that text and those attachments (and the unsaved flag false), whatever
  the code units of the strings are.
\<close>

theorem payload_round_trip:
  "on_sync_data (JSON_parse (num_of :: jsstring \<Rightarrow> 'n))
       (Str (update_data_payload (num_str :: 'n \<Rightarrow> jsstring) t (map attachment_object as))) st
     = Inr (st\<lparr>text' := t, attachments := map attachment_object as, hasUnsavedChanges := False\<rparr>)"
  by (simp add: canonical_round_trip list_all_iff canonical_attachment_object)

text \<open>The payload of the text \<open>hi\<close> without attachments is
  \<open>{"text":"hi","attachments":[]}\<close>.\<close>

lemma hi_payload:
  "update_data_payload S (js ''hi'') [] = js ''{'' @ [0x22] @ js ''text'' @ [0x22] @ js '':'' @ [0x22] @ js ''hi'' @ [0x22]
      @ js '','' @ [0x22] @ js ''attachments'' @ [0x22] @ js '':[]}''"
  by (simp add: update_data_payload_def QuoteJSONString_def js_def is_high_surrogate_def
        is_low_surrogate_def quote_unit_def)

text \<open>The parser evaluated on that payload.\<close>

lemma JSON_parse_hi:
  "JSON_parse N (js ''{'' @ [0x22] @ js ''text'' @ [0x22] @ js '':'' @ [0x22] @ js ''hi'' @ [0x22]
      @ js '','' @ [0x22] @ js ''attachments'' @ [0x22] @ js '':[]}'')
   = Inr (JObject [(js ''text'', JString (js ''hi'')), (js ''attachments'', JArray [])])"
  by (simp add: JSON_parse_def js_def is_json_ws_def is_digit_def consumed_def obj_put_def
        array_index_def)

theorem payload_round_trip_witness:
  "on_sync_data (JSON_parse id)
     (Str (js ''{'' @ [0x22] @ js ''text'' @ [0x22] @ js '':'' @ [0x22] @ js ''hi'' @ [0x22]
      @ js '','' @ [0x22] @ js ''attachments'' @ [0x22] @ js '':[]}''))
     ((mounted :: jsstring app_state)\<lparr>hasUnsavedChanges := True\<rparr>)
   = Inr (mounted\<lparr>text' := js ''hi''\<rparr>)"
  using payload_round_trip [of id id "js ''hi''" "[]" "(mounted :: jsstring app_state)\<lparr>hasUnsavedChanges := True\<rparr>"]
  by (simp add: hi_payload mounted_def room_effect_def initial_state_def roomCode_def LOCAL_ROOM_def
        Let_def)

end
